theory Spec2Isabelle
  imports Main "HOL-Library.Multiset"
begin

section \<open>Data model (types.ts)\<close>

text \<open>
  The records follow the interfaces of \<^verbatim>\<open>types.ts\<close>. Two fields are both called
  \<^verbatim>\<open>id\<close> in the source; they are \<open>cid\<close> (card) and \<open>pid\<close> (player) here. Fields of the
  smaller interfaces that share a name with another interface carry a short prefix.

  A card's \<^verbatim>\<open>type\<close> is a \<open>CardType option\<close>: \<open>None\<close> stands for the JavaScript values
  \<^verbatim>\<open>null\<close> (written by the public mask) and \<^verbatim>\<open>undefined\<close> (read past the end of the
  deck). Nullable strings are \<open>string option\<close>. The optional flags \<^verbatim>\<open>isGhost\<close>,
  \<^verbatim>\<open>isDisconnected\<close> and \<^verbatim>\<open>isSmallGameMode\<close> are only ever tested for truthiness and
  are booleans here (absent = false). The \<open>selPlayerId\<close> of a conspiracy selection is an
  option because \<^verbatim>\<open>CONSPIRACY_SELECT_FOR_OTHER\<close> stores \<^verbatim>\<open>data.forPlayerId\<close>, which may
  be absent.

  A log entry is represented by its message: the \<^verbatim>\<open>id\<close> and \<^verbatim>\<open>timestamp\<close> that
  \<^verbatim>\<open>createLog\<close> takes from the clock and the random generator are not modelled.
\<close>

datatype CardType = NOT_A_WITCH | WITCH | CONSTABLE

record Card =
  cid :: string
  ctype :: "CardType option"
  isRevealed :: bool

record Player =
  pid :: string
  name :: string
  peerId :: string
  isHost :: bool
  isDead :: bool
  hasBlackCat :: bool
  cards :: "Card list"
  hasRevealedWitch :: bool
  immune :: bool
  isDisconnected :: bool
  isGhost :: bool

datatype GamePhase =
  LOBBY | SETUP | NIGHT_INITIAL_WITCH | DAY | CONSPIRACY | NIGHT_WITCH_VOTE
  | NIGHT_CONSTABLE | NIGHT_CONFESSION | NIGHT_RESOLUTION | GAME_OVER

record ConspiracySelection =
  selPlayerId :: "string option"
  selectedCardId :: "string option"

type_synonym LogEntry = string

record WitchVote =
  voterId :: string
  witchName :: string
  voteTargetId :: string
  voteTargetName :: string

record PendingAccusation =
  accuserId :: string
  accuserName :: string
  accTargetId :: string
  accTargetName :: string
  accepted :: bool

record NightDamageSelection =
  dmgTargetId :: string
  chooserId :: string
  pendingReveal :: bool

record GameState =
  roomId :: string
  phase :: GamePhase
  players :: "Player list"
  logs :: "LogEntry list"
  nightKillTargetId :: "string option"
  constableGuardId :: "string option"
  turnCounter :: nat
  witchVotes :: "WitchVote list"
  pendingAccusation :: "PendingAccusation option"
  conspiracySelections :: "ConspiracySelection list"
  nightConfirmations :: "string list"
  fakeVotes :: "string \<rightharpoonup> nat"
  isSmallGameMode :: bool
  nightDamageSelection :: "NightDamageSelection option"

datatype WinResult = WITCH_WIN | TOWN_WIN

section \<open>Win condition (checkWinCondition)\<close>

definition checkWinCondition :: "Player list \<Rightarrow> bool \<Rightarrow> WinResult option" where
  "checkWinCondition ps smallGame =
     (if smallGame then
        (let witchCard = find (\<lambda>c. ctype c = Some WITCH) (concat (map cards ps)) in
         if (case witchCard of None \<Rightarrow> False | Some c \<Rightarrow> isRevealed c) then Some TOWN_WIN
         else
           let anyEliminated =
                 list_ex (\<lambda>p. length (cards p) > 0 \<and> list_all isRevealed (cards p)) ps in
           if anyEliminated then Some WITCH_WIN
           else
             let realPlayers = filter (\<lambda>p. \<not> isGhost p) ps;
                 allRealPlayersAreWitches =
                   (length realPlayers > 0 \<and> list_all hasRevealedWitch realPlayers) in
             if allRealPlayersAreWitches then Some WITCH_WIN else None)
      else
        (let alivePlayers = filter (\<lambda>p. \<not> isDead p) ps;
             activeWitchCards =
               filter (\<lambda>c. ctype c = Some WITCH \<and> \<not> isRevealed c)
                 (concat (map cards alivePlayers)) in
         if length activeWitchCards = 0 then Some TOWN_WIN
         else
           let townTeamAlive = filter (\<lambda>p. \<not> hasRevealedWitch p) alivePlayers in
           if length townTeamAlive = 0 then Some WITCH_WIN else None))"

section \<open>Random choices\<close>

text \<open>
  \<^verbatim>\<open>Math.random()\<close> is an input of the model: every function that draws random numbers
  takes the natural numbers it draws as a parameter, and
  \<^verbatim>\<open>Math.floor(Math.random() * n)\<close> is \<open>randomIndex r n\<close>, which ranges over exactly
  \<open>0..<n\<close> as \<open>r\<close> ranges over the naturals (and is \<open>0\<close> for \<open>n = 0\<close>, as in the
  source).
\<close>

definition randomIndex :: "nat \<Rightarrow> nat \<Rightarrow> nat" where
  "randomIndex r n = (if n = 0 then 0 else r mod n)"

text \<open>
  \<^verbatim>\<open>shuffle\<close>: the Fisher-Yates loop \<^verbatim>\<open>for (i = length - 1; i > 0; i--)\<close>, swapping
  positions \<open>i\<close> and \<open>j = floor(random * (i + 1))\<close>. \<open>rnd i\<close> is the draw of
  iteration \<open>i\<close>.
\<close>

fun shuffleLoop :: "(nat \<Rightarrow> nat) \<Rightarrow> nat \<Rightarrow> 'a list \<Rightarrow> 'a list" where
  "shuffleLoop rnd 0 newArray = newArray"
| "shuffleLoop rnd (Suc i) newArray =
     (let j = randomIndex (rnd (Suc i)) (Suc i + 1)
      in shuffleLoop rnd i (newArray[Suc i := newArray ! j, j := newArray ! Suc i]))"

definition shuffle :: "(nat \<Rightarrow> nat) \<Rightarrow> 'a list \<Rightarrow> 'a list" where
  "shuffle rnd array = shuffleLoop rnd (length array - 1) array"

section \<open>Dealer (generateDeck, distributeCards)\<close>

record Distribution =
  notAWitch :: nat
  witch :: nat
  constable :: nat

definition TRYAL_CARD_DISTRIBUTION :: "nat \<rightharpoonup> Distribution" where
  "TRYAL_CARD_DISTRIBUTION = map_of
     [(4, \<lparr>notAWitch = 18, witch = 1, constable = 1\<rparr>),
      (5, \<lparr>notAWitch = 23, witch = 1, constable = 1\<rparr>),
      (6, \<lparr>notAWitch = 27, witch = 2, constable = 1\<rparr>),
      (7, \<lparr>notAWitch = 32, witch = 2, constable = 1\<rparr>),
      (8, \<lparr>notAWitch = 29, witch = 2, constable = 1\<rparr>),
      (9, \<lparr>notAWitch = 33, witch = 2, constable = 1\<rparr>),
      (10, \<lparr>notAWitch = 27, witch = 2, constable = 1\<rparr>),
      (11, \<lparr>notAWitch = 30, witch = 2, constable = 1\<rparr>),
      (12, \<lparr>notAWitch = 33, witch = 2, constable = 1\<rparr>)]"

definition getCardsPerPlayer :: "nat \<Rightarrow> nat" where
  "getCardsPerPlayer playerCount =
     (if playerCount \<le> 7 then 5 else if playerCount \<le> 9 then 4 else 3)"

text \<open>
  The deck before the shuffle. Each \<^verbatim>\<open>for\<close> loop pushes one role \<open>n\<close> times, which is
  \<open>replicate n\<close>; a negative \<^verbatim>\<open>townCount\<close> (zero players) runs the loop zero times, as
  the truncated subtraction on \<open>nat\<close> does.
\<close>

definition unshuffledDeck :: "nat \<Rightarrow> CardType list" where
  "unshuffledDeck playerCount =
     (case TRYAL_CARD_DISTRIBUTION playerCount of
        Some distribution \<Rightarrow>
          replicate (witch distribution) WITCH
          @ replicate (constable distribution) CONSTABLE
          @ replicate (notAWitch distribution) NOT_A_WITCH
      | None \<Rightarrow>
          (let witchCount = (if playerCount > 5 then 2 else 1);
               constableCount = 1;
               cardsPerPlayer = getCardsPerPlayer playerCount;
               totalCards = playerCount * cardsPerPlayer;
               townCount = totalCards - witchCount - constableCount
           in replicate witchCount WITCH
              @ replicate constableCount CONSTABLE
              @ replicate townCount NOT_A_WITCH))"

definition generateDeck :: "(nat \<Rightarrow> nat) \<Rightarrow> nat \<Rightarrow> CardType list" where
  "generateDeck rnd playerCount = shuffle rnd (unshuffledDeck playerCount)"

definition createCard :: "string \<Rightarrow> CardType option \<Rightarrow> Card" where
  "createCard newId ty = \<lparr>cid = newId, ctype = ty, isRevealed = False\<rparr>"

text \<open>\<^verbatim>\<open>deckTypes[cardIndex]\<close>: \<^verbatim>\<open>undefined\<close> past the end of the array.\<close>

definition deckAt :: "CardType list \<Rightarrow> nat \<Rightarrow> CardType option" where
  "deckAt deckTypes cardIndex =
     (if cardIndex < length deckTypes then Some (deckTypes ! cardIndex) else None)"

text \<open>
  The inner loop of \<^verbatim>\<open>distributeCards\<close> for one player: \<open>n\<close> iterations remain,
  \<open>cardIndex\<close> is the shared counter, returned updated. \<open>ids k\<close> is the random id that
  \<^verbatim>\<open>createCard\<close> gives the card made from deck position \<open>k\<close>.
\<close>

fun dealPlayer ::
  "CardType list \<Rightarrow> (nat \<Rightarrow> string) \<Rightarrow> nat \<Rightarrow> Player \<Rightarrow> nat \<Rightarrow> Player \<times> nat" where
  "dealPlayer deckTypes ids 0 player cardIndex = (player, cardIndex)"
| "dealPlayer deckTypes ids (Suc n) player cardIndex =
     (let ty = deckAt deckTypes cardIndex;
          player1 = player\<lparr>cards := cards player @ [createCard (ids cardIndex) ty]\<rparr>;
          player2 = (if ty = Some WITCH then player1\<lparr>hasRevealedWitch := True\<rparr> else player1)
      in dealPlayer deckTypes ids n player2 (Suc cardIndex))"

text \<open>The outer \<^verbatim>\<open>forEach\<close> over the players, threading \<open>cardIndex\<close>.\<close>

fun dealPlayers ::
  "CardType list \<Rightarrow> (nat \<Rightarrow> string) \<Rightarrow> nat \<Rightarrow> Player list \<Rightarrow> nat \<Rightarrow> Player list" where
  "dealPlayers deckTypes ids cardsPerPlayer [] cardIndex = []"
| "dealPlayers deckTypes ids cardsPerPlayer (player # rest) cardIndex =
     (let (player', cardIndex') = dealPlayer deckTypes ids cardsPerPlayer player cardIndex
      in player' # dealPlayers deckTypes ids cardsPerPlayer rest cardIndex')"

definition distributeCards :: "(nat \<Rightarrow> nat) \<Rightarrow> (nat \<Rightarrow> string) \<Rightarrow> Player list \<Rightarrow> Player list" where
  "distributeCards rnd ids ps =
     (let deckTypes = generateDeck rnd (length ps);
          cardsPerPlayer = getCardsPerPlayer (length ps);
          playersWithCards = map (\<lambda>p. p\<lparr>cards := [], hasRevealedWitch := False\<rparr>) ps
      in dealPlayers deckTypes ids cardsPerPlayer playersWithCards 0)"

section \<open>Public view (the broadcast effect of App.tsx)\<close>

definition maskCard :: "Card \<Rightarrow> Card" where
  "maskCard c = c\<lparr>ctype := (if isRevealed c then ctype c else None)\<rparr>"

definition publicState :: "GameState \<Rightarrow> GameState" where
  "publicState gameState =
     gameState\<lparr>players := map (\<lambda>p. p\<lparr>cards := map maskCard (cards p)\<rparr>) (players gameState)\<rparr>"

section \<open>Phase transitions (advancePhase)\<close>

text \<open>Truthiness of a nullable string: \<^verbatim>\<open>null\<close> and the empty string are falsy.\<close>

definition truthy :: "string option \<Rightarrow> bool" where
  "truthy v = (case v of None \<Rightarrow> False | Some s \<Rightarrow> s \<noteq> [])"

definition hasActiveConstable :: "GameState \<Rightarrow> bool" where
  "hasActiveConstable state =
     list_ex (\<lambda>p. \<not> isDead p \<and> list_ex (\<lambda>c. ctype c = Some CONSTABLE \<and> \<not> isRevealed c) (cards p))
       (players state)"

text \<open>
  \<open>r\<close> is the one random draw of the small-game branches. The local \<^verbatim>\<open>logs\<close>,
  \<^verbatim>\<open>nextTurn\<close> and \<^verbatim>\<open>nightConfirmations\<close> of the source are the corresponding
  fields of the returned record. Phases without a \<^verbatim>\<open>case\<close> fall to the final
  \<^verbatim>\<open>return\<close> with every local unchanged.
\<close>

definition advancePhase :: "nat \<Rightarrow> GameState \<Rightarrow> GameState" where
  "advancePhase r state =
     (case phase state of
        SETUP \<Rightarrow>
          (let aliveWitches = filter (\<lambda>p. hasRevealedWitch p \<and> \<not> isDead p) (players state);
               realWitches = filter (\<lambda>p. \<not> isGhost p) aliveWitches;
               validTargets = filter (\<lambda>p. \<not> isGhost p) (players state)
           in if isSmallGameMode state \<and> length aliveWitches > 0 \<and> length realWitches = 0
                 \<and> length validTargets > 0
              then
                (let randomTarget = validTargets ! randomIndex r (length validTargets)
                 in state\<lparr>phase := NIGHT_INITIAL_WITCH,
                          players := map (\<lambda>p. p\<lparr>hasBlackCat := (pid p = pid randomTarget)\<rparr>)
                                       (players state),
                          nightConfirmations := []\<rparr>)
              else state\<lparr>phase := NIGHT_INITIAL_WITCH, nightConfirmations := []\<rparr>)
      | NIGHT_INITIAL_WITCH \<Rightarrow>
          state\<lparr>phase := DAY, turnCounter := turnCounter state + 1, witchVotes := [],
                nightConfirmations := []\<rparr>
      | DAY \<Rightarrow>
          (let aliveEntities = filter (\<lambda>p. \<not> isDead p) (players state);
               aliveWitches = filter hasRevealedWitch aliveEntities;
               realWitches = filter (\<lambda>p. \<not> isGhost p) aliveWitches;
               validTargets = filter (\<lambda>p. \<not> isGhost p) aliveEntities
           in if isSmallGameMode state \<and> length aliveWitches > 0 \<and> length realWitches = 0
                 \<and> length validTargets > 0
              then
                (let randomTarget = validTargets ! randomIndex r (length validTargets)
                 in state\<lparr>phase := NIGHT_WITCH_VOTE, nightConfirmations := [],
                          nightKillTargetId := Some (pid randomTarget)\<rparr>)
              else state\<lparr>phase := NIGHT_WITCH_VOTE, nightConfirmations := []\<rparr>)
      | NIGHT_WITCH_VOTE \<Rightarrow>
          (if hasActiveConstable state
           then state\<lparr>phase := NIGHT_CONSTABLE, nightConfirmations := []\<rparr>
           else state\<lparr>phase := NIGHT_CONFESSION,
                      logs := logs state @ [''No Constable to protect tonight.''],
                      nightConfirmations := []\<rparr>)
      | NIGHT_CONSTABLE \<Rightarrow>
          (let ghostConstable =
                 find (\<lambda>p. \<not> isDead p \<and> isGhost p
                        \<and> list_ex (\<lambda>c. ctype c = Some CONSTABLE \<and> \<not> isRevealed c) (cards p))
                   (players state)
           in if \<not> truthy (constableGuardId state) \<and> ghostConstable \<noteq> None
              then state\<lparr>phase := NIGHT_CONFESSION, nightConfirmations := [],
                         constableGuardId := Some ''SKIP''\<rparr>
              else state\<lparr>phase := NIGHT_CONFESSION, nightConfirmations := []\<rparr>)
      | NIGHT_CONFESSION \<Rightarrow>
          state\<lparr>phase := NIGHT_RESOLUTION,
                logs := logs state @ [''Confession period has ended.'']\<rparr>
      | _ \<Rightarrow> state)"

section \<open>Action processing (processPlayerAction)\<close>

text \<open>
  The payload \<^verbatim>\<open>data: any\<close> is an object with the fields the handlers read. A string
  field that may be absent is an option; \<^verbatim>\<open>cardIds\<close> is the array that the cast
  \<^verbatim>\<open>data.cardIds as string[]\<close> takes it to be.
\<close>

record ActionData =
  targetId :: "string option"
  cardId :: "string option"
  fakeTargetId :: "string option"
  ghostId :: "string option"
  cardIds :: "string list"
  forPlayerId :: "string option"

text \<open>
  The random draws of one call: the draw of \<^verbatim>\<open>getRandomMessage\<close>, the draws of the
  \<open>k\<close>-th call of \<^verbatim>\<open>shuffle\<close> (one call per hand, in roster order), and the draw for
  the \<open>k\<close>-th living ghost of the conspiracy.
\<close>

record Rand =
  messageDraw :: nat
  shuffleDraw :: "nat \<Rightarrow> nat \<Rightarrow> nat"
  ghostDraw :: "nat \<Rightarrow> nat"

record CardTransfer =
  fromPlayerId :: string
  toPlayerId :: string
  transferCardId :: "string option"

subsection \<open>Helpers\<close>

text \<open>
  \<^verbatim>\<open>find\<close> followed by an assignment to a field of the object found changes the first
  matching element of the array in place: \<open>updFirst\<close>.
\<close>

fun updFirst :: "('a \<Rightarrow> bool) \<Rightarrow> ('a \<Rightarrow> 'a) \<Rightarrow> 'a list \<Rightarrow> 'a list" where
  "updFirst P f [] = []"
| "updFirst P f (x # xs) = (if P x then f x # xs else x # updFirst P f xs)"

text \<open>\<^verbatim>\<open>findIndex\<close>: \<open>None\<close> is the source's \<open>-1\<close>.\<close>

fun findIndex :: "('a \<Rightarrow> bool) \<Rightarrow> 'a list \<Rightarrow> nat option" where
  "findIndex P [] = None"
| "findIndex P (x # xs) = (if P x then Some 0 else map_option Suc (findIndex P xs))"

text \<open>\<^verbatim>\<open>xs[i]\<close>, \<^verbatim>\<open>undefined\<close> out of range.\<close>

definition nthOpt :: "'a list \<Rightarrow> nat \<Rightarrow> 'a option" where
  "nthOpt xs i = (if i < length xs then Some (xs ! i) else None)"

text \<open>
  \<^verbatim>\<open>let left = index - 1; if (left < 0) left = length - 1\<close>. For an empty array the
  source's \<open>-1\<close> and the \<open>0\<close> obtained here both read \<^verbatim>\<open>undefined\<close>.
\<close>

definition leftIndex :: "nat option \<Rightarrow> nat \<Rightarrow> nat" where
  "leftIndex index len = (case index of Some (Suc i) \<Rightarrow> i | _ \<Rightarrow> len - 1)"

fun digits :: "nat \<Rightarrow> string" where
  "digits n =
     (if n < 10 then [char_of (48 + n)] else digits (n div 10) @ [char_of (48 + n mod 10)])"

definition showCardType :: "CardType option \<Rightarrow> string" where
  "showCardType ty =
     (case ty of Some NOT_A_WITCH \<Rightarrow> ''NOT_A_WITCH'' | Some WITCH \<Rightarrow> ''WITCH''
      | Some CONSTABLE \<Rightarrow> ''CONSTABLE'' | None \<Rightarrow> ''null'')"

definition WITCH_FOUND_MESSAGES :: "string list" where
  "WITCH_FOUND_MESSAGES =
     [''A WITCH! {name} has been exposed as a servant of darkness!'',
      ''The truth is revealed! {name} consorted with the Devil!'',
      ''Justice prevails! {name}'s witchcraft is laid bare!'',
      ''{name}'s dark secret is exposed - WITCH!'',
      ''The town rejoices! {name} is unmasked as a witch!'',
      ''By God's light, {name}'s wickedness is revealed!'']"

definition ALL_CARDS_REVEALED_MESSAGES :: "string list" where
  "ALL_CARDS_REVEALED_MESSAGES =
     [''{name} has been thoroughly tried and found... innocent! But the stress was too much.'',
      ''{name}'s honor is proven but their heart gives out from the ordeal!'',
      ''Though proven innocent, {name} cannot survive the shame of accusation!'',
      ''{name} collapses after their final card is revealed!'']"

text \<open>
  \<^verbatim>\<open>template.replace('{name}', name)\<close> replaces the first occurrence. (The special
  replacement patterns of JavaScript, such as \<^verbatim>\<open>$&\<close> inside the name, are not modelled.)
\<close>

fun replaceFirst :: "string \<Rightarrow> string \<Rightarrow> string \<Rightarrow> string" where
  "replaceFirst pat rep [] = (if pat = [] then rep else [])"
| "replaceFirst pat rep (c # cs) =
     (if take (length pat) (c # cs) = pat then rep @ drop (length pat) (c # cs)
      else c # replaceFirst pat rep cs)"

definition getRandomMessage :: "nat \<Rightarrow> string list \<Rightarrow> string \<Rightarrow> string" where
  "getRandomMessage r messages nm =
     replaceFirst ''{name}'' nm (messages ! randomIndex r (length messages))"

text \<open>
  \<^verbatim>\<open>if (!nightConfirmations.includes(playerId)) nightConfirmations = [..., playerId]\<close>,
  the statement that ends most handlers.
\<close>

definition addConfirmation :: "string \<Rightarrow> GameState \<Rightarrow> GameState" where
  "addConfirmation playerId updates =
     (if playerId \<in> set (nightConfirmations updates) then updates
      else updates\<lparr>nightConfirmations := nightConfirmations updates @ [playerId]\<rparr>)"

definition pushLog :: "string \<Rightarrow> GameState \<Rightarrow> GameState" where
  "pushLog message updates = updates\<lparr>logs := logs updates @ [message]\<rparr>"

definition revealCard :: "string option \<Rightarrow> Card list \<Rightarrow> Card list" where
  "revealCard wanted cs = updFirst (\<lambda>c. Some (cid c) = wanted) (\<lambda>c. c\<lparr>isRevealed := True\<rparr>) cs"

definition winMessage :: "WinResult \<Rightarrow> string" where
  "winMessage win = (if win = TOWN_WIN then ''Town'' else ''Witches'') @ '' Win!''"

subsection \<open>Accusations\<close>

text \<open>
  In the handlers below \<open>updates\<close> is the source's \<^verbatim>\<open>updates\<close> together with its local
  \<^verbatim>\<open>logs\<close> (the \<open>logs\<close> field), which the final \<^verbatim>\<open>return { ...updates, logs }\<close> joins.
  The input is a value, so no two hands share a card object.
\<close>

definition accuseStart :: "string \<Rightarrow> ActionData \<Rightarrow> GameState \<Rightarrow> GameState" where
  "accuseStart playerId data updates =
     (case (find (\<lambda>p. pid p = playerId) (players updates),
            find (\<lambda>p. Some (pid p) = targetId data) (players updates)) of
        (Some accuser, Some target) \<Rightarrow>
          if \<not> isDead target then
            (let isGhostTarget = isGhost target;
                 u1 = updates\<lparr>pendingAccusation := Some
                        \<lparr>accuserId = playerId, accuserName = name accuser,
                         accTargetId = pid target, accTargetName = name target,
                         accepted = isGhostTarget\<rparr>\<rparr>;
                 u2 = pushLog (name accuser @ '' accuses '' @ name target @ ''!'') u1
             in if isGhostTarget then pushLog ''The ghost cannot object...'' u2 else u2)
          else updates
      | _ \<Rightarrow> updates)"

definition accuseAccept :: "string \<Rightarrow> GameState \<Rightarrow> GameState" where
  "accuseAccept playerId updates =
     (case pendingAccusation updates of
        Some pa \<Rightarrow>
          if accTargetId pa = playerId then
            pushLog (accTargetName pa @ '' accepts the accusation.'')
              (updates\<lparr>pendingAccusation := Some (pa\<lparr>accepted := True\<rparr>)\<rparr>)
          else updates
      | None \<Rightarrow> updates)"

definition accuseCancel :: "GameState \<Rightarrow> GameState" where
  "accuseCancel updates =
     (case pendingAccusation updates of
        Some pa \<Rightarrow>
          (pushLog (''Accusation against '' @ accTargetName pa @ '' was withdrawn.'') updates)
            \<lparr>pendingAccusation := None\<rparr>
      | None \<Rightarrow> updates)"

definition accuseReveal :: "Rand \<Rightarrow> string \<Rightarrow> ActionData \<Rightarrow> GameState \<Rightarrow> GameState" where
  "accuseReveal rnd playerId data updates =
     (case pendingAccusation updates of
        Some pa \<Rightarrow>
          if accepted pa \<and> accuserId pa = playerId then
            (case find (\<lambda>p. pid p = accTargetId pa) (players updates) of
               Some targetPlayer \<Rightarrow>
                 (case find (\<lambda>c. Some (cid c) = cardId data) (cards targetPlayer) of
                    Some crd \<Rightarrow>
                      if \<not> isRevealed crd then
                        (let shown = revealCard (cardId data) (cards targetPlayer);
                             u1 = pushLog (name targetPlayer @ '' revealed ''
                                           @ showCardType (ctype crd) @ ''!'') updates;
                             newTarget =
                               (if ctype crd = Some WITCH then
                                  targetPlayer\<lparr>isDead := True,
                                    cards := map (\<lambda>c. c\<lparr>isRevealed := True\<rparr>) shown\<rparr>
                                else if list_all isRevealed shown then
                                  targetPlayer\<lparr>cards := shown, isDead := True\<rparr>
                                else targetPlayer\<lparr>cards := shown\<rparr>);
                             u2 =
                               (if ctype crd = Some WITCH then
                                  pushLog (getRandomMessage (messageDraw rnd)
                                             WITCH_FOUND_MESSAGES (name targetPlayer)) u1
                                else if list_all isRevealed shown then
                                  pushLog (getRandomMessage (messageDraw rnd)
                                             ALL_CARDS_REVEALED_MESSAGES (name targetPlayer)) u1
                                else u1)
                         in u2\<lparr>players := updFirst (\<lambda>p. pid p = accTargetId pa)
                                             (\<lambda>p. newTarget) (players updates),
                                pendingAccusation := None\<rparr>)
                      else updates
                  | None \<Rightarrow> updates)
             | None \<Rightarrow> updates)
          else updates
      | None \<Rightarrow> updates)"

subsection \<open>Night actions\<close>

definition nightConfirm :: "string \<Rightarrow> ActionData \<Rightarrow> GameState \<Rightarrow> GameState" where
  "nightConfirm playerId data updates =
     (if playerId \<notin> set (nightConfirmations updates) then
        (let u1 = updates\<lparr>nightConfirmations := nightConfirmations updates @ [playerId]\<rparr>
         in case fakeTargetId data of
              Some t \<Rightarrow>
                if t \<noteq> [] then
                  u1\<lparr>fakeVotes := (fakeVotes u1)
                       (t \<mapsto> (case fakeVotes u1 t of Some n \<Rightarrow> n | None \<Rightarrow> 0) + 1)\<rparr>
                else u1
            | None \<Rightarrow> u1)
      else updates)"

text \<open>
  The loop over the living ghost witches: a vote is pushed for a ghost only when the list
  holds no vote of that ghost yet.
\<close>

fun addGhostVotes :: "Player list \<Rightarrow> string \<Rightarrow> string \<Rightarrow> WitchVote list \<Rightarrow> WitchVote list" where
  "addGhostVotes [] tId tName votes = votes"
| "addGhostVotes (ghost # rest) tId tName votes =
     addGhostVotes rest tId tName
       (if list_ex (\<lambda>v. voterId v = pid ghost) votes then votes
        else votes @ [\<lparr>voterId = pid ghost, witchName = name ghost,
                       voteTargetId = tId, voteTargetName = tName\<rparr>])"

definition recordWitchVote :: "string \<Rightarrow> Player \<Rightarrow> Player \<Rightarrow> GameState \<Rightarrow> GameState" where
  "recordWitchVote playerId voter target updates =
     (let existingVotes = filter (\<lambda>v. voterId v \<noteq> playerId) (witchVotes updates);
          votes1 = existingVotes @ [\<lparr>voterId = playerId, witchName = name voter,
                                     voteTargetId = pid target, voteTargetName = name target\<rparr>];
          ghostWitches = filter (\<lambda>p. isGhost p \<and> hasRevealedWitch p \<and> \<not> isDead p)
                           (players updates)
      in updates\<lparr>witchVotes := addGhostVotes ghostWitches (pid target) (name target) votes1\<rparr>)"

definition blackCat :: "string \<Rightarrow> ActionData \<Rightarrow> GameState \<Rightarrow> GameState" where
  "blackCat playerId data updates =
     (case (find (\<lambda>p. pid p = playerId) (players updates),
            find (\<lambda>p. Some (pid p) = targetId data) (players updates)) of
        (Some voter, Some target) \<Rightarrow>
          (let u1 = recordWitchVote playerId voter target updates;
               u2 = u1\<lparr>players := map (\<lambda>p. p\<lparr>hasBlackCat := (Some (pid p) = targetId data)\<rparr>)
                                     (players u1)\<rparr>
           in addConfirmation playerId u2)
      | _ \<Rightarrow> updates)"

definition killVote :: "string \<Rightarrow> ActionData \<Rightarrow> GameState \<Rightarrow> GameState" where
  "killVote playerId data updates =
     (case (find (\<lambda>p. pid p = playerId) (players updates),
            find (\<lambda>p. Some (pid p) = targetId data) (players updates)) of
        (Some voter, Some target) \<Rightarrow>
          (let u1 = recordWitchVote playerId voter target updates;
               u2 = u1\<lparr>nightKillTargetId := targetId data\<rparr>
           in addConfirmation playerId u2)
      | _ \<Rightarrow> updates)"

definition guardVote :: "string \<Rightarrow> ActionData \<Rightarrow> GameState \<Rightarrow> GameState" where
  "guardVote playerId data updates =
     addConfirmation playerId (updates\<lparr>constableGuardId := targetId data\<rparr>)"

definition guardSkip :: "string \<Rightarrow> GameState \<Rightarrow> GameState" where
  "guardSkip playerId updates =
     addConfirmation playerId (updates\<lparr>constableGuardId := Some ''SKIP''\<rparr>)"

definition selfReveal :: "string \<Rightarrow> ActionData \<Rightarrow> GameState \<Rightarrow> GameState" where
  "selfReveal playerId data updates =
     addConfirmation playerId
       (case find (\<lambda>p. pid p = playerId) (players updates) of
          Some player \<Rightarrow>
            (case find (\<lambda>c. Some (cid c) = cardId data) (cards player) of
               Some crd \<Rightarrow>
                 pushLog (name player @ '' confessed to seek safety.'')
                   (updates\<lparr>players := updFirst (\<lambda>p. pid p = playerId)
                        (\<lambda>p. p\<lparr>cards := revealCard (cardId data) (cards p), immune := True\<rparr>)
                        (players updates)\<rparr>)
             | None \<Rightarrow> updates)
        | None \<Rightarrow> updates)"

definition shuffleHidden :: "(nat \<Rightarrow> nat) \<Rightarrow> Player \<Rightarrow> Player" where
  "shuffleHidden draw player =
     (let hiddenCards = filter (\<lambda>c. \<not> isRevealed c) (cards player);
          revealedCards = filter isRevealed (cards player)
      in player\<lparr>cards := shuffle draw hiddenCards @ revealedCards\<rparr>)"

definition shuffleHand :: "Rand \<Rightarrow> string \<Rightarrow> GameState \<Rightarrow> GameState" where
  "shuffleHand rnd playerId updates =
     updates\<lparr>players := updFirst (\<lambda>p. pid p = playerId) (shuffleHidden (shuffleDraw rnd 0))
                           (players updates)\<rparr>"

definition shuffleGhost :: "Rand \<Rightarrow> ActionData \<Rightarrow> GameState \<Rightarrow> GameState" where
  "shuffleGhost rnd data updates =
     updates\<lparr>players := updFirst (\<lambda>p. Some (pid p) = ghostId data \<and> isGhost p)
                           (shuffleHidden (shuffleDraw rnd 0)) (players updates)\<rparr>"

definition nightDamageSelect :: "string \<Rightarrow> ActionData \<Rightarrow> GameState \<Rightarrow> GameState" where
  "nightDamageSelect playerId data updates =
     (case nightDamageSelection updates of
        Some nds \<Rightarrow>
          if chooserId nds = playerId then
            (let tId = dmgTargetId nds;
                 selectedCardIds = cardIds data;
                 targetPlayer = find (\<lambda>p. pid p = tId) (players updates);
                 newPlayers =
                   map (\<lambda>p. if pid p \<noteq> tId then p
                             else (let newCards =
                                         map (\<lambda>c. c\<lparr>isRevealed :=
                                                (if cid c \<in> set selectedCardIds then True
                                                 else isRevealed c)\<rparr>) (cards p)
                                   in p\<lparr>cards := newCards, isDead := list_all isRevealed newCards\<rparr>))
                     (players updates);
                 updatedTarget = find (\<lambda>p. pid p = tId) newPlayers;
                 targetName = (case targetPlayer of Some p \<Rightarrow> name p | None \<Rightarrow> ''undefined'');
                 u1 = updates\<lparr>players := newPlayers\<rparr>;
                 u2 = (if (case updatedTarget of Some p \<Rightarrow> isDead p | None \<Rightarrow> False) then
                         pushLog (targetName
                                  @ '' had all their cards revealed and has been eliminated!'') u1
                       else
                         pushLog (targetName @ '' lost '' @ digits (length selectedCardIds)
                                  @ '' card(s) to the night attack.'') u1);
                 u3 = (case checkWinCondition (players u2) (isSmallGameMode u2) of
                         Some win \<Rightarrow> (pushLog (winMessage win) u2)\<lparr>phase := GAME_OVER\<rparr>
                       | None \<Rightarrow> u2\<lparr>phase := DAY, turnCounter := turnCounter u2 + 1\<rparr>)
             in u3\<lparr>nightKillTargetId := None, constableGuardId := None, witchVotes := [],
                    nightDamageSelection := None\<rparr>)
          else updates
      | None \<Rightarrow> updates)"

subsection \<open>Conspiracy\<close>

definition triggerConspiracy :: "GameState \<Rightarrow> GameState" where
  "triggerConspiracy updates =
     pushLog ''Conspiracy begins! Each player selects a hidden card from their left neighbor.''
       (updates\<lparr>phase := CONSPIRACY, conspiracySelections := []\<rparr>)"

text \<open>
  The left neighbour of the entity with id \<open>wanted\<close>: the previous element of the list of
  living entities, the last one for the first.
\<close>

definition leftNeighborOf :: "Player list \<Rightarrow> string option \<Rightarrow> Player option" where
  "leftNeighborOf ps wanted =
     (let aliveEntities = filter (\<lambda>p. \<not> isDead p) ps;
          index = findIndex (\<lambda>p. Some (pid p) = wanted) aliveEntities
      in nthOpt aliveEntities (leftIndex index (length aliveEntities)))"

text \<open>
  The selections pushed for the living ghosts; \<open>draw k\<close> is the random draw for the
  \<open>k\<close>-th of them.
\<close>

definition ghostSelection :: "Player list \<Rightarrow> nat \<times> Player \<Rightarrow> ConspiracySelection list" where
  "ghostSelection ps kg =
     (let (r, ghost) = kg;
          leftNeighbor = leftNeighborOf ps (Some (pid ghost));
          hiddenCards = (case leftNeighbor of
                           Some ln \<Rightarrow> filter (\<lambda>c. \<not> isRevealed c) (cards ln)
                         | None \<Rightarrow> [])
      in if length hiddenCards > 0 then
           [\<lparr>selPlayerId = Some (pid ghost),
             selectedCardId = Some (cid (hiddenCards ! randomIndex r (length hiddenCards)))\<rparr>]
         else [])"

definition ghostSelections :: "(nat \<Rightarrow> nat) \<Rightarrow> Player list \<Rightarrow> ConspiracySelection list" where
  "ghostSelections draw ps =
     (let aliveEntitiesList = filter (\<lambda>p. \<not> isDead p) ps;
          ghosts = filter isGhost aliveEntitiesList
      in concat (map (ghostSelection ps) (zip (map draw [0..<length ghosts]) ghosts)))"

text \<open>The transfer computed for one selection; none when the loop body hits \<^verbatim>\<open>continue\<close>.\<close>

definition transferFor :: "Player list \<Rightarrow> ConspiracySelection \<Rightarrow> CardTransfer list" where
  "transferFor ps selection =
     (case find (\<lambda>p. Some (pid p) = selPlayerId selection) ps of
        None \<Rightarrow> []
      | Some receivingPlayer \<Rightarrow>
          if isDead receivingPlayer then []
          else (case leftNeighborOf ps (selPlayerId selection) of
                  Some leftNeighbor \<Rightarrow>
                    [\<lparr>fromPlayerId = pid leftNeighbor, toPlayerId = pid receivingPlayer,
                      transferCardId = selectedCardId selection\<rparr>]
                | None \<Rightarrow> []))"

definition cardTransfers :: "Player list \<Rightarrow> ConspiracySelection list \<Rightarrow> CardTransfer list" where
  "cardTransfers ps selections = concat (map (transferFor ps) selections)"

text \<open>
  \<^verbatim>\<open>playerCardsMap\<close> is a finite map from player id to a copy of the hand. One transfer
  removes the first card with the selected id from the source hand (\<^verbatim>\<open>splice\<close>) and
  appends it to the destination hand (\<^verbatim>\<open>push\<close>); when source and destination are the
  same array the push sees the spliced array.
\<close>

definition initialCardsMap :: "Player list \<Rightarrow> (string \<rightharpoonup> Card list)" where
  "initialCardsMap ps = fold (\<lambda>p m. m(pid p \<mapsto> cards p)) ps Map.empty"

definition applyTransfer ::
  "CardTransfer \<Rightarrow> (string \<rightharpoonup> Card list) \<times> string list
     \<Rightarrow> (string \<rightharpoonup> Card list) \<times> string list" where
  "applyTransfer transfer st =
     (let (m, newWitchPlayerIds) = st in
      case (m (fromPlayerId transfer), m (toPlayerId transfer)) of
        (Some fromCards, Some toCards) \<Rightarrow>
          (case findIndex (\<lambda>c. Some (cid c) = transferCardId transfer) fromCards of
             Some cardIndex \<Rightarrow>
               (let moved = fromCards ! cardIndex;
                    spliced = take cardIndex fromCards @ drop (Suc cardIndex) fromCards;
                    m1 = m(fromPlayerId transfer \<mapsto> spliced);
                    dest = (if toPlayerId transfer = fromPlayerId transfer then spliced
                            else toCards);
                    m2 = m1(toPlayerId transfer \<mapsto> dest @ [moved])
                in (m2, if ctype moved = Some WITCH
                        then newWitchPlayerIds @ [toPlayerId transfer]
                        else newWitchPlayerIds))
           | None \<Rightarrow> st)
      | _ \<Rightarrow> st)"

definition executeTransfers ::
  "CardTransfer list \<Rightarrow> (string \<rightharpoonup> Card list) \<Rightarrow> (string \<rightharpoonup> Card list) \<times> string list" where
  "executeTransfers transfers m = fold applyTransfer transfers (m, [])"

definition resolveConspiracy :: "Rand \<Rightarrow> GameState \<Rightarrow> GameState" where
  "resolveConspiracy rnd updates =
     (let ps = players updates;
          allSelections = conspiracySelections updates @ ghostSelections (ghostDraw rnd) ps;
          transfers = cardTransfers ps allSelections;
          (finalMap, newWitchPlayerIds) = executeTransfers transfers (initialCardsMap ps);
          newPlayers =
            map (\<lambda>(k, p).
                   p\<lparr>cards := shuffle (shuffleDraw rnd k)
                                (case finalMap (pid p) of Some cs \<Rightarrow> cs | None \<Rightarrow> cards p),
                     hasRevealedWitch :=
                       (hasRevealedWitch p \<or> pid p \<in> set newWitchPlayerIds)\<rparr>)
              (enumerate 0 ps)
      in (pushLog ''Conspiracy complete! Cards have been passed.'' updates)
           \<lparr>players := newPlayers, phase := DAY, conspiracySelections := []\<rparr>)"

definition conspiracySelect ::
  "Rand \<Rightarrow> string \<Rightarrow> string \<Rightarrow> ActionData \<Rightarrow> GameState \<Rightarrow> GameState" where
  "conspiracySelect rnd playerId action data updates =
     (let targetPlayerId = (if action = ''CONSPIRACY_SELECT_FOR_OTHER'' then forPlayerId data
                            else Some playerId);
          existingSelections =
            filter (\<lambda>s. selPlayerId s \<noteq> targetPlayerId) (conspiracySelections updates);
          u1 = updates\<lparr>conspiracySelections :=
                 existingSelections
                 @ [\<lparr>selPlayerId = targetPlayerId, selectedCardId = cardId data\<rparr>]\<rparr>;
          aliveRealPlayers = filter (\<lambda>p. \<not> isDead p \<and> \<not> isGhost p) (players u1);
          allSelected =
            list_all (\<lambda>p. list_ex (\<lambda>s. selPlayerId s = Some (pid p)) (conspiracySelections u1))
              aliveRealPlayers
      in if allSelected then resolveConspiracy rnd u1 else u1)"

subsection \<open>The dispatcher\<close>

definition applyAction ::
  "Rand \<Rightarrow> string \<Rightarrow> string \<Rightarrow> ActionData \<Rightarrow> GameState \<Rightarrow> GameState" where
  "applyAction rnd playerId action data updates =
     (if action = ''ACCUSE_START'' then accuseStart playerId data updates
      else if action = ''ACCUSE_ACCEPT'' then accuseAccept playerId updates
      else if action = ''ACCUSE_CANCEL'' then accuseCancel updates
      else if action = ''ACCUSE_REVEAL'' then accuseReveal rnd playerId data updates
      else if action = ''NIGHT_CONFIRM'' then nightConfirm playerId data updates
      else if action = ''BLACK_CAT'' then blackCat playerId data updates
      else if action = ''KILL_VOTE'' then killVote playerId data updates
      else if action = ''GUARD_VOTE'' then guardVote playerId data updates
      else if action = ''GUARD_SKIP'' then guardSkip playerId updates
      else if action = ''SELF_REVEAL'' then selfReveal playerId data updates
      else if action = ''CONFESSION_PASS'' then addConfirmation playerId updates
      else if action = ''SHUFFLE_HAND'' then shuffleHand rnd playerId updates
      else if action = ''SHUFFLE_GHOST'' then shuffleGhost rnd data updates
      else if action = ''NIGHT_DAMAGE_SELECT'' then nightDamageSelect playerId data updates
      else if action = ''TRIGGER_CONSPIRACY'' then triggerConspiracy updates
      else if action = ''CONSPIRACY_SELECT'' \<or> action = ''CONSPIRACY_SELECT_FOR_OTHER''
        then conspiracySelect rnd playerId action data updates
      else updates)"

text \<open>
  \<^verbatim>\<open>processPlayerAction(state, playerId, action, data)\<close>: the handler chain, then the
  win check, which compares with the phase of the incoming \<open>state\<close>.
\<close>

definition processPlayerAction ::
  "Rand \<Rightarrow> GameState \<Rightarrow> string \<Rightarrow> string \<Rightarrow> ActionData \<Rightarrow> GameState" where
  "processPlayerAction rnd state playerId action data =
     (let updates = applyAction rnd playerId action data state
      in case checkWinCondition (players updates) (isSmallGameMode updates) of
           Some win \<Rightarrow>
             if phase state \<noteq> GAME_OVER
             then (pushLog (winMessage win) updates)\<lparr>phase := GAME_OVER\<rparr>
             else updates
         | None \<Rightarrow> updates)"

section \<open>Notions used in the statements\<close>

text \<open>
  \<open>further ps qs\<close>: the roster \<open>qs\<close> is \<open>ps\<close> after more cards were revealed and more
  players were marked dead, and nothing else changed.
\<close>

definition furtherCard :: "Card \<Rightarrow> Card \<Rightarrow> bool" where
  "furtherCard c d = (d = c\<lparr>isRevealed := isRevealed d\<rparr> \<and> (isRevealed c \<longrightarrow> isRevealed d))"

definition furtherPlayer :: "Player \<Rightarrow> Player \<Rightarrow> bool" where
  "furtherPlayer p q =
     (q = p\<lparr>isDead := isDead q, cards := cards q\<rparr> \<and> (isDead p \<longrightarrow> isDead q)
      \<and> list_all2 furtherCard (cards p) (cards q))"

definition further :: "Player list \<Rightarrow> Player list \<Rightarrow> bool" where
  "further ps qs = list_all2 furtherPlayer ps qs"

text \<open>
  The witch-side condition of the small game in the words of the specification: some
  entity has its entire hand revealed, or every living entity that is not a ghost is
  witch-aligned. It is compared with \<open>checkWinCondition\<close> below.
\<close>

definition claimedSmallGameWitchWin :: "Player list \<Rightarrow> bool" where
  "claimedSmallGameWitchWin ps =
     (list_ex (\<lambda>p. cards p \<noteq> [] \<and> list_all isRevealed (cards p)) ps
      \<or> list_all hasRevealedWitch (filter (\<lambda>p. \<not> isGhost p \<and> \<not> isDead p) ps))"

text \<open>
  The hand of seat \<open>i\<close> under a round-robin deal of \<open>deck\<close> to \<open>n\<close> seats, \<open>k\<close> cards
  each, in the words of the specification: deck positions \<open>i\<close>, \<open>i + n\<close>, \<open>i + 2 n\<close>, ...
\<close>

definition roundRobinHand :: "CardType list \<Rightarrow> nat \<Rightarrow> nat \<Rightarrow> nat \<Rightarrow> CardType list" where
  "roundRobinHand deck n k i = map (\<lambda>r. deck ! (i + r * n)) [0..<k]"

text \<open>
  An unrevealed witch card, and a roster in which no living entity holds one: the
  condition under which the standard-mode win check reports a town win.
\<close>

definition hiddenWitch :: "Card \<Rightarrow> bool" where
  "hiddenWitch c = (ctype c = Some WITCH \<and> \<not> isRevealed c)"

definition livingClean :: "Player list \<Rightarrow> bool" where
  "livingClean ps = (\<forall>p\<in>set ps. \<not> isDead p \<longrightarrow> (\<forall>c\<in>set (cards p). \<not> hiddenWitch c))"

text \<open>
  The hand stored for a key of the working copy (empty for a key that is absent), and the
  cards of all hands of the keys \<open>ks\<close> together.
\<close>

definition handOf :: "(string \<rightharpoonup> Card list) \<Rightarrow> string \<Rightarrow> Card list" where
  "handOf m k = (case m k of Some cs \<Rightarrow> cs | None \<Rightarrow> [])"

definition allCards :: "string list \<Rightarrow> (string \<rightharpoonup> Card list) \<Rightarrow> Card multiset" where
  "allCards ks m = sum_list (map (\<lambda>k. mset (handOf m k)) ks)"

text \<open>
  The same condition on the working copy of the hands during a conspiracy: the copy holds
  no unrevealed witch card under the id of a living entity.
\<close>

definition livingHandsClean :: "Player list \<Rightarrow> (string \<rightharpoonup> Card list) \<Rightarrow> bool" where
  "livingHandsClean ps m =
     (\<forall>p\<in>set ps. \<not> isDead p \<longrightarrow> (\<forall>c\<in>set (handOf m (pid p)). \<not> hiddenWitch c))"

text \<open>
  The selections over which the transfer loop runs when the \<open>CONSPIRACY_SELECT\<close> of
  \<open>playerId\<close> completes the round: the earlier selections of the others, the caller's
  own, and the ones pushed for the living ghosts.
\<close>

definition selectionsAtResolution ::
  "Rand \<Rightarrow> GameState \<Rightarrow> string \<Rightarrow> ActionData \<Rightarrow> ConspiracySelection list" where
  "selectionsAtResolution rnd s playerId d =
     filter (\<lambda>x. selPlayerId x \<noteq> Some playerId) (conspiracySelections s)
     @ [\<lparr>selPlayerId = Some playerId, selectedCardId = cardId d\<rparr>]
     @ ghostSelections (ghostDraw rnd) (players s)"

section \<open>Example inputs\<close>

definition exCard :: "string \<Rightarrow> CardType \<Rightarrow> bool \<Rightarrow> Card" where
  "exCard i ty shown = \<lparr>cid = i, ctype = Some ty, isRevealed = shown\<rparr>"

text \<open>A living human player who never held a witch card.\<close>

definition exPlayer :: "string \<Rightarrow> Card list \<Rightarrow> Player" where
  "exPlayer i hand =
     \<lparr>pid = i, name = i, peerId = i, isHost = False, isDead = False, hasBlackCat = False,
      cards = hand, hasRevealedWitch = False, immune = False, isDisconnected = False,
      isGhost = False\<rparr>"

definition exState :: "GamePhase \<Rightarrow> Player list \<Rightarrow> GameState" where
  "exState ph ps =
     \<lparr>roomId = ''ROOM'', phase = ph, players = ps, logs = [], nightKillTargetId = None,
      constableGuardId = None, turnCounter = 1, witchVotes = [], pendingAccusation = None,
      conspiracySelections = [], nightConfirmations = [], fakeVotes = Map.empty,
      isSmallGameMode = False, nightDamageSelection = None\<rparr>"

definition exData :: ActionData where
  "exData = \<lparr>targetId = None, cardId = None, fakeTargetId = None, ghostId = None,
             cardIds = [], forPlayerId = None\<rparr>"

text \<open>The random source whose shuffles leave every hand in place.\<close>

definition exRand :: Rand where
  "exRand = \<lparr>messageDraw = 0, shuffleDraw = (\<lambda>k i. i), ghostDraw = (\<lambda>k. 0)\<rparr>"

text \<open>
  Standard mode: only the witch is alive; then the same roster with the witch card shown.
\<close>

definition witchAlone :: "Player list" where
  "witchAlone =
     [(exPlayer ''w'' [exCard ''c1'' WITCH False])\<lparr>hasRevealedWitch := True\<rparr>,
      (exPlayer ''t'' [exCard ''c2'' NOT_A_WITCH True])\<lparr>isDead := True\<rparr>]"

definition witchAloneShown :: "Player list" where
  "witchAloneShown =
     [(exPlayer ''w'' [exCard ''c1'' WITCH True])\<lparr>hasRevealedWitch := True\<rparr>,
      (exPlayer ''t'' [exCard ''c2'' NOT_A_WITCH True])\<lparr>isDead := True\<rparr>]"

text \<open>
  Small-game rosters: a living witch-aligned human beside a dead human who is not
  witch-aligned; an entity whose whole hand, the witch card, is revealed; and a
  witch-aligned human beside a ghost.
\<close>

definition smallDeadTownie :: "Player list" where
  "smallDeadTownie =
     [(exPlayer ''w'' [exCard ''c1'' WITCH False, exCard ''c2'' NOT_A_WITCH False])
        \<lparr>hasRevealedWitch := True\<rparr>,
      (exPlayer ''t'' [exCard ''c3'' NOT_A_WITCH False])\<lparr>isDead := True\<rparr>]"

definition smallWitchShown :: "Player list" where
  "smallWitchShown =
     [(exPlayer ''w'' [exCard ''c1'' WITCH True])\<lparr>hasRevealedWitch := True, isDead := True\<rparr>,
      exPlayer ''t'' [exCard ''c3'' NOT_A_WITCH False]]"

definition smallAllAligned :: "Player list" where
  "smallAllAligned =
     [(exPlayer ''w'' [exCard ''c1'' WITCH False, exCard ''c2'' NOT_A_WITCH False])
        \<lparr>hasRevealedWitch := True\<rparr>,
      (exPlayer ''g'' [exCard ''c3'' NOT_A_WITCH False])\<lparr>isGhost := True\<rparr>]"

text \<open>Four seats before the deal, and the ids given to the dealt cards.\<close>

definition exIds :: "nat \<Rightarrow> string" where
  "exIds k = ''card'' @ digits k"

definition roster4 :: "Player list" where
  "roster4 = [exPlayer ''p0'' [], exPlayer ''p1'' [], exPlayer ''p2'' [], exPlayer ''p3'' []]"

text \<open>Two outcomes of the shuffle of the 20-card deck: no swap at all, and one swap of the
  first card with the last.\<close>

definition keepOrder :: "nat \<Rightarrow> nat" where
  "keepOrder i = i"

definition witchToEnd :: "nat \<Rightarrow> nat" where
  "witchToEnd i = (if i = 19 then 0 else i)"

definition dealtWitchFirst :: GameState where
  "dealtWitchFirst = exState SETUP (distributeCards keepOrder exIds roster4)"

definition dealtWitchLast :: GameState where
  "dealtWitchLast = exState SETUP (distributeCards witchToEnd exIds roster4)"

text \<open>A night with a living constable whose card is hidden.\<close>

definition constableState :: GameState where
  "constableState = exState NIGHT_WITCH_VOTE
     [exPlayer ''a'' [exCard ''c1'' CONSTABLE False],
      exPlayer ''b'' [exCard ''c2'' WITCH False]]"

text \<open>A hand with one hidden and one revealed card.\<close>

definition maskExample :: GameState where
  "maskExample = exState DAY
     [exPlayer ''a'' [exCard ''c1'' WITCH False, exCard ''c2'' NOT_A_WITCH True]]"

text \<open>
  A confession phase with a witch holder, a dead player and a player with a revealed
  card.
\<close>

definition confessState :: GameState where
  "confessState = exState NIGHT_CONFESSION
     [(exPlayer ''w'' [exCard ''c1'' WITCH False, exCard ''c2'' NOT_A_WITCH False])
        \<lparr>hasRevealedWitch := True\<rparr>,
      (exPlayer ''t'' [exCard ''c3'' NOT_A_WITCH False, exCard ''c4'' NOT_A_WITCH True])
        \<lparr>isDead := True\<rparr>,
      exPlayer ''u'' [exCard ''c5'' NOT_A_WITCH False, exCard ''c6'' CONSTABLE True]]"

text \<open>A small game in which a human and a living ghost are both witch-aligned.\<close>

definition ghostVoteState :: GameState where
  "ghostVoteState = (exState NIGHT_WITCH_VOTE
     [(exPlayer ''w'' [exCard ''c1'' WITCH False])\<lparr>hasRevealedWitch := True\<rparr>,
      (exPlayer ''g'' [exCard ''c2'' NOT_A_WITCH False])
        \<lparr>hasRevealedWitch := True, isGhost := True\<rparr>,
      exPlayer ''a'' [exCard ''c3'' NOT_A_WITCH False],
      exPlayer ''b'' [exCard ''c4'' CONSTABLE False]])\<lparr>isSmallGameMode := True\<rparr>"

text \<open>
  Four living players in a conspiracy; three have selected a card of their left
  neighbour, the first seat has not yet.
\<close>

definition conspiracyState :: GameState where
  "conspiracyState = (exState CONSPIRACY
     [(exPlayer ''p0'' [exCard ''a0'' WITCH False, exCard ''b0'' NOT_A_WITCH False])
        \<lparr>hasRevealedWitch := True\<rparr>,
      exPlayer ''p1'' [exCard ''a1'' NOT_A_WITCH False, exCard ''b1'' CONSTABLE False],
      exPlayer ''p2'' [exCard ''a2'' NOT_A_WITCH False, exCard ''b2'' NOT_A_WITCH False],
      exPlayer ''p3'' [exCard ''a3'' NOT_A_WITCH False, exCard ''b3'' NOT_A_WITCH False]])
     \<lparr>conspiracySelections :=
        [\<lparr>selPlayerId = Some ''p1'', selectedCardId = Some ''a0''\<rparr>,
         \<lparr>selPlayerId = Some ''p2'', selectedCardId = Some ''a1''\<rparr>,
         \<lparr>selPlayerId = Some ''p3'', selectedCardId = Some ''a2''\<rparr>]\<rparr>"

text \<open>
  A small game in a conspiracy: two humans and two living ghosts seated alternately, two
  hidden cards each, nothing selected yet. Then the state after the host \<open>h1\<close> has
  entered a selection for each ghost with \<^verbatim>\<open>CONSPIRACY_SELECT_FOR_OTHER\<close> and the human
  \<open>h2\<close> has selected; every selection names a hidden card of the selector's left
  neighbour, and only \<open>h1\<close> has yet to select.
\<close>

definition ghostRing :: GameState where
  "ghostRing = (exState CONSPIRACY
     [exPlayer ''h1'' [exCard ''a0'' NOT_A_WITCH False, exCard ''b0'' NOT_A_WITCH False],
      (exPlayer ''g1'' [exCard ''a1'' NOT_A_WITCH False, exCard ''b1'' WITCH False])
        \<lparr>hasRevealedWitch := True, isGhost := True\<rparr>,
      exPlayer ''h2'' [exCard ''a2'' NOT_A_WITCH False, exCard ''b2'' CONSTABLE False],
      (exPlayer ''g2'' [exCard ''a3'' NOT_A_WITCH False, exCard ''b3'' NOT_A_WITCH False])
        \<lparr>isGhost := True\<rparr>])\<lparr>isSmallGameMode := True\<rparr>"

definition ghostRingEntered :: GameState where
  "ghostRingEntered =
     processPlayerAction exRand
       (processPlayerAction exRand
          (processPlayerAction exRand ghostRing ''h1'' ''CONSPIRACY_SELECT_FOR_OTHER''
             (exData\<lparr>forPlayerId := Some ''g1'', cardId := Some ''b0''\<rparr>))
          ''h1'' ''CONSPIRACY_SELECT_FOR_OTHER''
          (exData\<lparr>forPlayerId := Some ''g2'', cardId := Some ''b2''\<rparr>))
       ''h2'' ''CONSPIRACY_SELECT'' (exData\<lparr>cardId := Some ''a1''\<rparr>)"

section \<open>The win condition in terms of the roster\<close>

lemma checkWin_standard:
  "checkWinCondition ps False =
     (if (\<forall>p\<in>set ps. \<not> isDead p \<longrightarrow> (\<forall>c\<in>set (cards p). \<not> (ctype c = Some WITCH \<and> \<not> isRevealed c)))
      then Some TOWN_WIN
      else if (\<forall>p\<in>set ps. \<not> isDead p \<longrightarrow> hasRevealedWitch p) then Some WITCH_WIN else None)"
  unfolding checkWinCondition_def by (auto simp: filter_empty_conv Let_def)

lemma checkWin_small:
  "checkWinCondition ps True =
     (if (\<exists>c. find (\<lambda>c. ctype c = Some WITCH) (concat (map cards ps)) = Some c \<and> isRevealed c)
      then Some TOWN_WIN
      else if (\<exists>p\<in>set ps. cards p \<noteq> [] \<and> (\<forall>c\<in>set (cards p). isRevealed c))
              \<or> ((\<exists>p\<in>set ps. \<not> isGhost p) \<and> (\<forall>p\<in>set ps. \<not> isGhost p \<longrightarrow> hasRevealedWitch p))
      then Some WITCH_WIN else None)"
  unfolding checkWinCondition_def
  by (auto simp: filter_empty_conv Let_def list_ex_iff list_all_iff split: option.splits)

lemma furtherCard_fields:
  "furtherCard c d \<Longrightarrow> ctype d = ctype c \<and> cid d = cid c \<and> (isRevealed c \<longrightarrow> isRevealed d)"
  unfolding furtherCard_def by (cases c, cases d) auto

lemma furtherPlayer_fields:
  "furtherPlayer p q \<Longrightarrow> isGhost q = isGhost p \<and> hasRevealedWitch q = hasRevealedWitch p
     \<and> (isDead p \<longrightarrow> isDead q) \<and> list_all2 furtherCard (cards p) (cards q)"
  unfolding furtherPlayer_def by (cases p, cases q) auto

lemma further_concat:
  "further ps qs \<Longrightarrow> list_all2 furtherCard (concat (map cards ps)) (concat (map cards qs))"
  unfolding further_def
  by (induction rule: list_all2_induct) (auto dest: furtherPlayer_fields intro: list_all2_appendI)

lemma further_find_witch:
  "list_all2 furtherCard xs ys \<Longrightarrow> find (\<lambda>c. ctype c = Some WITCH) xs = Some c \<Longrightarrow> isRevealed c
     \<Longrightarrow> \<exists>d. find (\<lambda>c. ctype c = Some WITCH) ys = Some d \<and> isRevealed d"
  by (induction rule: list_all2_induct) (auto dest: furtherCard_fields split: if_splits)

lemma list_all2_rev_ex: "list_all2 R xs ys \<Longrightarrow> y \<in> set ys \<Longrightarrow> \<exists>x\<in>set xs. R x y"
  by (induction rule: list_all2_induct) auto

lemma list_all2_fwd_ex: "list_all2 R xs ys \<Longrightarrow> x \<in> set xs \<Longrightarrow> \<exists>y\<in>set ys. R x y"
  by (induction rule: list_all2_induct) auto

lemma further_town_standard:
  assumes "further ps qs"
    and "\<forall>p\<in>set ps. \<not> isDead p \<longrightarrow> (\<forall>c\<in>set (cards p). \<not> (ctype c = Some WITCH \<and> \<not> isRevealed c))"
  shows "\<forall>q\<in>set qs. \<not> isDead q \<longrightarrow> (\<forall>d\<in>set (cards q). \<not> (ctype d = Some WITCH \<and> \<not> isRevealed d))"
proof (intro ballI impI)
  fix q d assume q: "q \<in> set qs" "\<not> isDead q" and d: "d \<in> set (cards q)"
  from assms(1) q(1) obtain p where p: "p \<in> set ps" "furtherPlayer p q"
    unfolding further_def by (blast dest: list_all2_rev_ex)
  from p(2) q(2) have alive: "\<not> isDead p" and cs: "list_all2 furtherCard (cards p) (cards q)"
    by (auto dest: furtherPlayer_fields)
  from cs d obtain c where c: "c \<in> set (cards p)" "furtherCard c d"
    by (blast dest: list_all2_rev_ex)
  from assms(2) p(1) alive c(1) have "\<not> (ctype c = Some WITCH \<and> \<not> isRevealed c)" by blast
  with c(2) show "\<not> (ctype d = Some WITCH \<and> \<not> isRevealed d)"
    by (auto dest: furtherCard_fields)
qed

lemma further_witch_standard:
  assumes "further ps qs" and "\<forall>p\<in>set ps. \<not> isDead p \<longrightarrow> hasRevealedWitch p"
  shows "\<forall>q\<in>set qs. \<not> isDead q \<longrightarrow> hasRevealedWitch q"
proof (intro ballI impI)
  fix q assume q: "q \<in> set qs" "\<not> isDead q"
  from assms(1) q(1) obtain p where p: "p \<in> set ps" "furtherPlayer p q"
    unfolding further_def by (blast dest: list_all2_rev_ex)
  with q(2) assms(2) show "hasRevealedWitch q" by (auto dest: furtherPlayer_fields)
qed

lemma further_eliminated:
  assumes "further ps qs" and "p \<in> set ps" and "cards p \<noteq> []" and "\<forall>c\<in>set (cards p). isRevealed c"
  shows "\<exists>q\<in>set qs. cards q \<noteq> [] \<and> (\<forall>d\<in>set (cards q). isRevealed d)"
proof -
  from assms(1,2) obtain q where q: "q \<in> set qs" "furtherPlayer p q"
    unfolding further_def by (blast dest: list_all2_fwd_ex)
  then have cs: "list_all2 furtherCard (cards p) (cards q)" by (auto dest: furtherPlayer_fields)
  then have "length (cards q) = length (cards p)" by (simp add: list_all2_lengthD)
  with assms(3) have ne: "cards q \<noteq> []" by auto
  have "\<forall>d\<in>set (cards q). isRevealed d"
  proof
    fix d assume "d \<in> set (cards q)"
    with cs obtain c where "c \<in> set (cards p)" "furtherCard c d" by (blast dest: list_all2_rev_ex)
    with assms(4) show "isRevealed d" by (auto dest: furtherCard_fields)
  qed
  with q(1) ne show ?thesis by blast
qed

lemma further_real_witches:
  assumes "further ps qs"
    and "(\<exists>p\<in>set ps. \<not> isGhost p) \<and> (\<forall>p\<in>set ps. \<not> isGhost p \<longrightarrow> hasRevealedWitch p)"
  shows "(\<exists>q\<in>set qs. \<not> isGhost q) \<and> (\<forall>q\<in>set qs. \<not> isGhost q \<longrightarrow> hasRevealedWitch q)"
proof
  from assms obtain p where "p \<in> set ps" "\<not> isGhost p" by blast
  with assms(1) show "\<exists>q\<in>set qs. \<not> isGhost q"
    unfolding further_def by (fastforce dest: list_all2_fwd_ex furtherPlayer_fields)
next
  show "\<forall>q\<in>set qs. \<not> isGhost q \<longrightarrow> hasRevealedWitch q"
  proof (intro ballI impI)
    fix q assume q: "q \<in> set qs" "\<not> isGhost q"
    from assms(1) q(1) obtain p where "p \<in> set ps" "furtherPlayer p q"
      unfolding further_def by (blast dest: list_all2_rev_ex)
    with q(2) assms(2) show "hasRevealedWitch q" by (auto dest: furtherPlayer_fields)
  qed
qed

lemmas example_defs =
  exCard_def exPlayer_def exState_def exData_def exRand_def

text \<open>
  C2 (as amended). Once \<open>checkWinCondition\<close> returns a result for a roster, it returns a
  result for every roster obtained by revealing more cards or marking more players dead,
  in standard and in small-game mode; a town win stays a town win. (A witch win may turn
  into a town win: the town condition is tested first.)
\<close>

theorem win_monotone:
  assumes "further ps qs" and "checkWinCondition ps small \<noteq> None"
  shows "checkWinCondition qs small \<noteq> None
         \<and> (checkWinCondition ps small = Some TOWN_WIN \<longrightarrow> checkWinCondition qs small = Some TOWN_WIN)"
proof (cases small)
  case False
  then have s: "small = False" by simp
  let ?T = "\<lambda>xs. \<forall>p\<in>set xs. \<not> isDead p \<longrightarrow> (\<forall>c\<in>set (cards p). \<not> (ctype c = Some WITCH \<and> \<not> isRevealed c))"
  let ?W = "\<lambda>xs. \<forall>p\<in>set xs. \<not> isDead p \<longrightarrow> hasRevealedWitch p"
  have t: "?T ps \<Longrightarrow> ?T qs" by (rule further_town_standard[OF assms(1)])
  have w: "?W ps \<Longrightarrow> ?W qs" by (rule further_witch_standard[OF assms(1)])
  from assms(2) have "?T ps \<or> ?W ps" unfolding s checkWin_standard by (simp split: if_splits)
  with t w have "?T qs \<or> ?W qs" by blast
  moreover have "?T ps \<Longrightarrow> ?T qs" by (rule t)
  ultimately show ?thesis unfolding s checkWin_standard by (auto split: if_splits)
next
  case True
  then have s: "small = True" by simp
  let ?F = "\<lambda>xs. \<exists>c. find (\<lambda>c. ctype c = Some WITCH) (concat (map cards xs)) = Some c \<and> isRevealed c"
  let ?E = "\<lambda>xs. \<exists>p\<in>set xs. cards p \<noteq> [] \<and> (\<forall>c\<in>set (cards p). isRevealed c)"
  let ?R = "\<lambda>xs. (\<exists>p\<in>set xs. \<not> isGhost p) \<and> (\<forall>p\<in>set xs. \<not> isGhost p \<longrightarrow> hasRevealedWitch p)"
  have f: "?F ps \<Longrightarrow> ?F qs" using further_find_witch[OF further_concat[OF assms(1)]] by blast
  have e: "?E ps \<Longrightarrow> ?E qs" using further_eliminated[OF assms(1)] by blast
  have r: "?R ps \<Longrightarrow> ?R qs" by (rule further_real_witches[OF assms(1)])
  from assms(2) have "?F ps \<or> ?E ps \<or> ?R ps" unfolding s checkWin_small by (simp split: if_splits)
  with f e r have any: "?F qs \<or> ?E qs \<or> ?R qs" by blast
  have town: "checkWinCondition ps True = Some TOWN_WIN \<Longrightarrow> ?F qs"
    using f unfolding checkWin_small by (simp split: if_splits)
  from any have 1: "checkWinCondition qs True \<noteq> None" unfolding checkWin_small by (auto split: if_splits)
  from town have 2: "checkWinCondition ps True = Some TOWN_WIN \<longrightarrow> checkWinCondition qs True = Some TOWN_WIN"
    unfolding checkWin_small[of qs] by simp
  from 1 2 show ?thesis unfolding s by simp
qed

theorem win_monotone_witness:
  "further witchAlone witchAloneShown \<and> checkWinCondition witchAlone False \<noteq> None
   \<and> checkWinCondition witchAloneShown False \<noteq> None"
proof -
  have f: "further witchAlone witchAloneShown"
    by (simp add: further_def furtherPlayer_def furtherCard_def witchAlone_def
        witchAloneShown_def example_defs)
  have w: "checkWinCondition witchAlone False \<noteq> None"
    by (simp add: checkWinCondition_def witchAlone_def example_defs)
  from win_monotone[OF f w] f w show ?thesis by simp
qed

text \<open>
  C2 as stated fails: the side is not kept. With the witch player alone alive the witches
  have won; revealing the witch card makes the same roster a town win.
\<close>

theorem win_side_changes:
  "further witchAlone witchAloneShown
   \<and> checkWinCondition witchAlone False = Some WITCH_WIN
   \<and> checkWinCondition witchAloneShown False = Some TOWN_WIN"
  by (simp add: further_def furtherPlayer_def furtherCard_def checkWinCondition_def
      witchAlone_def witchAloneShown_def example_defs)

text \<open>
  C3 (as amended). In small-game mode \<open>checkWinCondition\<close> returns \<open>WITCH_WIN\<close> exactly
  when the first witch card of the roster is not revealed (or there is none) and either
  some entity has a non-empty hand that is revealed entirely, or there is an entity that
  is not a ghost and every such entity, living or dead, is witch-aligned.
\<close>

theorem small_game_witch_win:
  "checkWinCondition ps True = Some WITCH_WIN \<longleftrightarrow>
     \<not> (\<exists>c. find (\<lambda>c. ctype c = Some WITCH) (concat (map cards ps)) = Some c \<and> isRevealed c)
     \<and> ((\<exists>p\<in>set ps. cards p \<noteq> [] \<and> (\<forall>c\<in>set (cards p). isRevealed c))
        \<or> ((\<exists>p\<in>set ps. \<not> isGhost p) \<and> (\<forall>p\<in>set ps. \<not> isGhost p \<longrightarrow> hasRevealedWitch p)))"
  unfolding checkWin_small by simp

theorem small_game_witch_win_witness:
  "checkWinCondition smallAllAligned True = Some WITCH_WIN"
  using small_game_witch_win[of smallAllAligned]
  by (simp add: smallAllAligned_def example_defs)

text \<open>
  C3 as stated fails twice. A dead human who is not witch-aligned keeps the witches from
  winning, and a fully revealed hand that shows the witch card is a town win.
\<close>

theorem small_game_dead_human_counts:
  "claimedSmallGameWitchWin smallDeadTownie
   \<and> checkWinCondition smallDeadTownie True = None
   \<and> claimedSmallGameWitchWin smallWitchShown
   \<and> checkWinCondition smallWitchShown True = Some TOWN_WIN"
  by (simp add: claimedSmallGameWitchWin_def checkWinCondition_def smallDeadTownie_def
      smallWitchShown_def example_defs)

section \<open>Shuffle and deal\<close>

lemma randomIndex_less: "0 < n \<Longrightarrow> randomIndex r n < n"
  by (simp add: randomIndex_def)

lemma length_shuffleLoop: "length (shuffleLoop rnd i xs) = length xs"
  by (induction i arbitrary: xs) (simp_all add: Let_def)

lemma length_shuffle: "length (shuffle rnd xs) = length xs"
  by (simp add: shuffle_def length_shuffleLoop)

lemma mset_shuffleLoop: "i < length xs \<Longrightarrow> mset (shuffleLoop rnd i xs) = mset xs"
proof (induction i arbitrary: xs)
  case 0
  then show ?case by simp
next
  case (Suc i)
  let ?j = "randomIndex (rnd (Suc i)) (Suc i + 1)"
  have j: "?j < length xs" using randomIndex_less[of "Suc i + 1" "rnd (Suc i)"] Suc.prems by simp
  have "mset (xs[Suc i := xs ! ?j, ?j := xs ! Suc i]) = mset xs"
    using Suc.prems j by (simp add: mset_swap)
  moreover have "i < length (xs[Suc i := xs ! ?j, ?j := xs ! Suc i])" using Suc.prems by simp
  ultimately show ?case using Suc.IH by (simp add: Let_def)
qed

lemma mset_shuffle: "mset (shuffle rnd xs) = mset xs"
  by (cases xs) (simp_all add: shuffle_def mset_shuffleLoop)

lemma set_shuffle: "set (shuffle rnd xs) = set xs"
  using mset_shuffle[of rnd xs] by (metis set_mset_mset)

lemma length_unshuffledDeck:
  assumes "0 < n"
  shows "length (unshuffledDeck n) = n * getCardsPerPlayer n"
proof -
  consider "n < 4" | "n = 4" | "n = 5" | "n = 6" | "n = 7" | "n = 8" | "n = 9"
    | "n = 10" | "n = 11" | "n = 12" | "12 < n"
    by linarith
  then show ?thesis
  proof cases
    case 1
    then have "TRYAL_CARD_DISTRIBUTION n = None" by (simp add: TRYAL_CARD_DISTRIBUTION_def)
    with 1 assms show ?thesis by (simp add: unshuffledDeck_def getCardsPerPlayer_def)
  next
    case 11
    then have "TRYAL_CARD_DISTRIBUTION n = None" by (simp add: TRYAL_CARD_DISTRIBUTION_def)
    with 11 show ?thesis by (simp add: unshuffledDeck_def getCardsPerPlayer_def)
  qed (simp_all add: unshuffledDeck_def TRYAL_CARD_DISTRIBUTION_def getCardsPerPlayer_def)
qed

lemma length_generateDeck:
  "0 < n \<Longrightarrow> length (generateDeck rnd n) = n * getCardsPerPlayer n"
  by (simp add: generateDeck_def length_shuffle length_unshuffledDeck)

lemma dealPlayer_eq:
  "dealPlayer deck ids n p ci =
     (p\<lparr>cards := cards p @ map (\<lambda>j. createCard (ids j) (deckAt deck j)) [ci..<ci + n],
        hasRevealedWitch := (hasRevealedWitch p \<or> (\<exists>j\<in>{ci..<ci + n}. deckAt deck j = Some WITCH))\<rparr>,
      ci + n)"
proof (induction n arbitrary: p ci)
  case 0
  then show ?case by simp
next
  case (Suc n)
  have split: "[ci..<ci + Suc n] = ci # [Suc ci..<Suc ci + n]"
    by (simp add: upt_conv_Cons)
  have ex: "(\<exists>j\<in>{ci..<ci + Suc n}. deckAt deck j = Some WITCH)
            \<longleftrightarrow> deckAt deck ci = Some WITCH \<or> (\<exists>j\<in>{Suc ci..<Suc ci + n}. deckAt deck j = Some WITCH)"
  proof -
    have "{ci..<ci + Suc n} = insert ci {Suc ci..<Suc ci + n}" by auto
    then show ?thesis by simp
  qed
  show ?case
    by (simp only: dealPlayer.simps Let_def Suc.IH split ex) auto
qed

lemma length_dealPlayers: "length (dealPlayers deck ids k ps ci) = length ps"
  by (induction ps arbitrary: ci) (simp_all add: dealPlayer_eq)

lemma dealPlayers_nth:
  "i < length ps \<Longrightarrow>
     dealPlayers deck ids k ps ci ! i = fst (dealPlayer deck ids k (ps ! i) (ci + i * k))"
proof (induction ps arbitrary: ci i)
  case Nil
  then show ?case by simp
next
  case (Cons p ps)
  show ?case
  proof (cases i)
    case 0
    then show ?thesis by (simp add: dealPlayer_eq)
  next
    case (Suc i')
    with Cons.prems have "i' < length ps" by simp
    from Cons.IH[OF this, of "ci + k"] Suc show ?thesis
      by (simp add: dealPlayer_eq add.assoc add.commute)
  qed
qed

lemma distributeCards_nth:
  assumes "i < length ps"
  shows "distributeCards rnd ids ps ! i =
           (ps ! i)\<lparr>cards := map (\<lambda>j. createCard (ids j) (deckAt (generateDeck rnd (length ps)) j))
                       [i * getCardsPerPlayer (length ps)..<
                        i * getCardsPerPlayer (length ps) + getCardsPerPlayer (length ps)],
                    hasRevealedWitch :=
                      (\<exists>j\<in>{i * getCardsPerPlayer (length ps)..<
                            i * getCardsPerPlayer (length ps) + getCardsPerPlayer (length ps)}.
                         deckAt (generateDeck rnd (length ps)) j = Some WITCH)\<rparr>"
  using assms by (simp add: distributeCards_def Let_def dealPlayers_nth dealPlayer_eq)

lemma length_distributeCards: "length (distributeCards rnd ids ps) = length ps"
  by (simp add: distributeCards_def Let_def length_dealPlayers)

lemma block_in_deck:
  assumes "i < n" and "j < i * k + k"
  shows "j < n * (k::nat)"
proof -
  from assms(1) have "Suc i \<le> n" by simp
  then have "Suc i * k \<le> n * k" by (rule mult_le_mono1)
  with assms(2) show ?thesis by simp
qed

lemma deck_keepOrder:
  "generateDeck keepOrder 4 =
     [WITCH, CONSTABLE, NOT_A_WITCH, NOT_A_WITCH, NOT_A_WITCH, NOT_A_WITCH, NOT_A_WITCH,
      NOT_A_WITCH, NOT_A_WITCH, NOT_A_WITCH, NOT_A_WITCH, NOT_A_WITCH, NOT_A_WITCH,
      NOT_A_WITCH, NOT_A_WITCH, NOT_A_WITCH, NOT_A_WITCH, NOT_A_WITCH, NOT_A_WITCH,
      NOT_A_WITCH]"
  by code_simp

lemma deck_witchToEnd:
  "generateDeck witchToEnd 4 =
     [NOT_A_WITCH, CONSTABLE, NOT_A_WITCH, NOT_A_WITCH, NOT_A_WITCH, NOT_A_WITCH, NOT_A_WITCH,
      NOT_A_WITCH, NOT_A_WITCH, NOT_A_WITCH, NOT_A_WITCH, NOT_A_WITCH, NOT_A_WITCH,
      NOT_A_WITCH, NOT_A_WITCH, NOT_A_WITCH, NOT_A_WITCH, NOT_A_WITCH, NOT_A_WITCH,
      WITCH]"
  by code_simp

lemma first_block: "[0..<5] = [0, 1, 2, 3, 4::nat]"
  by (simp add: upt_rec)

lemma length_roster4: "length roster4 = 4"
  by (simp add: roster4_def)

lemma first_hand_keepOrder:
  "distributeCards keepOrder exIds roster4 ! 0 =
     (exPlayer ''p0'' (map (\<lambda>j. createCard (exIds j) (deckAt (generateDeck keepOrder 4) j))
        [0, 1, 2, 3, 4]))\<lparr>hasRevealedWitch := True\<rparr>"
proof -
  have hd: "roster4 ! 0 = exPlayer ''p0'' []" by (simp add: roster4_def)
  have w: "deckAt (generateDeck keepOrder 4) 0 = Some WITCH"
    by (simp add: deck_keepOrder deckAt_def)
  have "\<exists>j\<in>{0..<5::nat}. deckAt (generateDeck keepOrder 4) j = Some WITCH"
    using w by (intro bexI[of _ 0]) simp_all
  then show ?thesis
    using distributeCards_nth[of 0 roster4 keepOrder exIds]
    unfolding length_roster4 hd
    by (simp add: getCardsPerPlayer_def first_block exPlayer_def)
qed

lemma first_hand_witchToEnd:
  "distributeCards witchToEnd exIds roster4 ! 0 =
     exPlayer ''p0'' (map (\<lambda>j. createCard (exIds j) (deckAt (generateDeck witchToEnd 4) j))
        [0, 1, 2, 3, 4])"
proof -
  have hd: "roster4 ! 0 = exPlayer ''p0'' []" by (simp add: roster4_def)
  have "{0..<5::nat} = set [0, 1, 2, 3, 4]"
    unfolding first_block[symmetric] by simp
  then have "\<not> (\<exists>j\<in>{0..<5::nat}. deckAt (generateDeck witchToEnd 4) j = Some WITCH)"
    by (simp add: deck_witchToEnd deckAt_def)
  then show ?thesis
    using distributeCards_nth[of 0 roster4 witchToEnd exIds]
    unfolding length_roster4 hd
    by (simp add: getCardsPerPlayer_def first_block exPlayer_def)
qed

text \<open>
  C5 (as amended). \<open>distributeCards\<close> deals the shuffled deck in consecutive blocks: with
  \<open>k\<close> cards per player, the entity at seat \<open>i\<close> receives the deck cards at positions
  \<open>i k\<close>, ..., \<open>i k + k - 1\<close>, unrevealed and in deck order, and its
  \<open>hasRevealedWitch\<close> flag is set exactly when one of them is a witch card.
\<close>

theorem deal_in_blocks:
  assumes "i < length ps"
  shows "cards (distributeCards rnd ids ps ! i) =
           map (\<lambda>j. \<lparr>cid = ids j, ctype = Some (generateDeck rnd (length ps) ! j),
                      isRevealed = False\<rparr>)
             [i * getCardsPerPlayer (length ps)..<
              i * getCardsPerPlayer (length ps) + getCardsPerPlayer (length ps)]
         \<and> (hasRevealedWitch (distributeCards rnd ids ps ! i) \<longleftrightarrow>
              (\<exists>c\<in>set (cards (distributeCards rnd ids ps ! i)). ctype c = Some WITCH))
         \<and> length (distributeCards rnd ids ps) = length ps"
proof -
  let ?k = "getCardsPerPlayer (length ps)"
  let ?deck = "generateDeck rnd (length ps)"
  have len: "length ?deck = length ps * ?k"
  proof -
    from assms have "0 < length ps" by (cases ps) simp_all
    then show ?thesis by (rule length_generateDeck)
  qed
  have at: "deckAt ?deck j = Some (?deck ! j)" if "j < i * ?k + ?k" for j
    using block_in_deck[OF assms that] len by (simp add: deckAt_def)
  have hand: "cards (distributeCards rnd ids ps ! i) =
                map (\<lambda>j. createCard (ids j) (deckAt ?deck j)) [i * ?k..<i * ?k + ?k]"
    by (simp add: distributeCards_nth[OF assms])
  have flag: "hasRevealedWitch (distributeCards rnd ids ps ! i) \<longleftrightarrow>
                (\<exists>j\<in>{i * ?k..<i * ?k + ?k}. deckAt ?deck j = Some WITCH)"
    by (simp add: distributeCards_nth[OF assms])
  have 1: "cards (distributeCards rnd ids ps ! i) =
             map (\<lambda>j. \<lparr>cid = ids j, ctype = Some (?deck ! j), isRevealed = False\<rparr>)
               [i * ?k..<i * ?k + ?k]"
    unfolding hand by (rule map_cong) (simp_all add: createCard_def at)
  have 2: "hasRevealedWitch (distributeCards rnd ids ps ! i) \<longleftrightarrow>
             (\<exists>c\<in>set (cards (distributeCards rnd ids ps ! i)). ctype c = Some WITCH)"
    unfolding flag hand by (auto simp: createCard_def)
  from 1 2 show ?thesis by (simp add: length_distributeCards)
qed

theorem deal_in_blocks_witness:
  "map ctype (cards (distributeCards keepOrder exIds roster4 ! 0))
     = [Some WITCH, Some CONSTABLE, Some NOT_A_WITCH, Some NOT_A_WITCH, Some NOT_A_WITCH]
   \<and> hasRevealedWitch (distributeCards keepOrder exIds roster4 ! 0)"
  using deal_in_blocks[of 0 roster4 keepOrder exIds]
  unfolding length_roster4
  by (simp add: getCardsPerPlayer_def first_block deck_keepOrder)

text \<open>
  C5 as stated fails: the deal is not round-robin. With the unshuffled order the first
  seat holds deck positions 0 to 4 (witch and constable), not 0, 4, 8, 12, 16.
\<close>

theorem deal_not_round_robin:
  "map ctype (cards (distributeCards keepOrder exIds roster4 ! 0))
     = [Some WITCH, Some CONSTABLE, Some NOT_A_WITCH, Some NOT_A_WITCH, Some NOT_A_WITCH]
   \<and> map Some (roundRobinHand (generateDeck keepOrder 4) 4 5 0)
     = [Some WITCH, Some NOT_A_WITCH, Some NOT_A_WITCH, Some NOT_A_WITCH, Some NOT_A_WITCH]"
  by (simp add: first_hand_keepOrder exPlayer_def createCard_def deck_keepOrder deckAt_def
      roundRobinHand_def first_block)

section \<open>The public view\<close>

lemma publicState_nth:
  "i < length (players s) \<Longrightarrow>
     players (publicState s) ! i = (players s ! i)\<lparr>cards := map maskCard (cards (players s ! i))\<rparr>"
  by (simp add: publicState_def)

text \<open>
  C1 (as amended). The public view keeps the roster, every hand's length, and every
  card's id and revealed flag; a revealed card keeps its role and an unrevealed card has
  role \<open>None\<close>. Every other field of every player and of the state is broadcast as
  it is, the \<open>hasRevealedWitch\<close> flag included.
\<close>

theorem public_view_masks:
  "length (players (publicState s)) = length (players s)
   \<and> (\<forall>i<length (players s).
         (players (publicState s) ! i)\<lparr>cards := cards (players s ! i)\<rparr> = players s ! i
         \<and> map cid (cards (players (publicState s) ! i)) = map cid (cards (players s ! i))
         \<and> map isRevealed (cards (players (publicState s) ! i))
             = map isRevealed (cards (players s ! i))
         \<and> (\<forall>j<length (cards (players s ! i)).
               ctype (cards (players (publicState s) ! i) ! j)
                 = (if isRevealed (cards (players s ! i) ! j)
                    then ctype (cards (players s ! i) ! j) else None)))
   \<and> (publicState s)\<lparr>players := players s\<rparr> = s"
  by (simp add: publicState_def maskCard_def comp_def)

theorem public_view_masks_witness:
  "map ctype (cards (players (publicState maskExample) ! 0)) = [None, Some NOT_A_WITCH]
   \<and> map isRevealed (cards (players (publicState maskExample) ! 0)) = [False, True]"
  using public_view_masks[of maskExample]
  by (simp add: maskExample_def example_defs publicState_def maskCard_def)

text \<open>
  C1 as stated fails: another field of the broadcast tells a hidden role. After two deals
  that differ in the hidden cards of the first seat, the masked hands of that seat are
  equal, but its broadcast \<open>hasRevealedWitch\<close> flag is true exactly in the deal that gave
  it the witch card.
\<close>

theorem public_view_shows_alignment:
  "cards (players (publicState dealtWitchFirst) ! 0)
     = cards (players (publicState dealtWitchLast) ! 0)
   \<and> ctype (cards (players dealtWitchFirst ! 0) ! 0) = Some WITCH
   \<and> ctype (cards (players dealtWitchLast ! 0) ! 0) = Some NOT_A_WITCH
   \<and> hasRevealedWitch (players (publicState dealtWitchFirst) ! 0)
   \<and> \<not> hasRevealedWitch (players (publicState dealtWitchLast) ! 0)"
proof -
  have a: "0 < length (players dealtWitchFirst)"
    by (simp add: dealtWitchFirst_def exState_def length_distributeCards length_roster4)
  have b: "0 < length (players dealtWitchLast)"
    by (simp add: dealtWitchLast_def exState_def length_distributeCards length_roster4)
  have pa: "players dealtWitchFirst ! 0 = distributeCards keepOrder exIds roster4 ! 0"
    by (simp add: dealtWitchFirst_def exState_def)
  have pb: "players dealtWitchLast ! 0 = distributeCards witchToEnd exIds roster4 ! 0"
    by (simp add: dealtWitchLast_def exState_def)
  show ?thesis
    unfolding publicState_nth[OF a] publicState_nth[OF b] pa pb
      first_hand_keepOrder first_hand_witchToEnd
    by (simp add: exPlayer_def createCard_def maskCard_def deck_keepOrder deck_witchToEnd
        deckAt_def)
qed

section \<open>Phase transitions\<close>

text \<open>
  C8. From \<open>NIGHT_WITCH_VOTE\<close>, \<open>advancePhase\<close> moves to \<open>NIGHT_CONSTABLE\<close> if and only
  if some living entity holds an unrevealed constable card, with the log unchanged;
  otherwise it moves to \<open>NIGHT_CONFESSION\<close> and appends the log entry
  "No Constable to protect tonight."; the night confirmations are cleared in both cases.
\<close>

theorem witch_vote_to_constable:
  assumes "phase s = NIGHT_WITCH_VOTE"
  shows "(phase (advancePhase r s) = NIGHT_CONSTABLE \<longleftrightarrow>
            (\<exists>p\<in>set (players s). \<not> isDead p
               \<and> (\<exists>c\<in>set (cards p). ctype c = Some CONSTABLE \<and> \<not> isRevealed c)))
         \<and> (phase (advancePhase r s) = NIGHT_CONSTABLE \<longrightarrow> logs (advancePhase r s) = logs s)
         \<and> (phase (advancePhase r s) \<noteq> NIGHT_CONSTABLE \<longrightarrow>
              phase (advancePhase r s) = NIGHT_CONFESSION
              \<and> logs (advancePhase r s) = logs s @ [''No Constable to protect tonight.''])
         \<and> nightConfirmations (advancePhase r s) = []"
  using assms by (simp add: advancePhase_def hasActiveConstable_def list_ex_iff)

theorem witch_vote_to_constable_witness:
  "phase constableState = NIGHT_WITCH_VOTE
   \<and> phase (advancePhase 0 constableState) = NIGHT_CONSTABLE
   \<and> logs (advancePhase 0 constableState) = logs constableState
   \<and> nightConfirmations (advancePhase 0 constableState) = []"
  using witch_vote_to_constable[of constableState 0]
  by (simp add: constableState_def example_defs)

section \<open>Night confirmation\<close>

lemma applyAction_nightConfirm:
  "applyAction rnd playerId ''NIGHT_CONFIRM'' d s = nightConfirm playerId d s"
  by (simp add: applyAction_def)

lemma nightConfirm_member: "playerId \<in> set (nightConfirmations (nightConfirm playerId d s))"
  by (simp add: nightConfirm_def Let_def split: option.splits)

lemma nightConfirm_again:
  "playerId \<in> set (nightConfirmations s) \<Longrightarrow> nightConfirm playerId d s = s"
  by (simp add: nightConfirm_def)

lemma finish_confirmations:
  "nightConfirmations (processPlayerAction rnd s playerId action d)
     = nightConfirmations (applyAction rnd playerId action d s)"
  "fakeVotes (processPlayerAction rnd s playerId action d)
     = fakeVotes (applyAction rnd playerId action d s)"
  by (simp_all add: processPlayerAction_def pushLog_def Let_def split: option.splits)

text \<open>
  C9. A second \<open>NIGHT_CONFIRM\<close> from the same entity, whatever its payload, leaves the
  set of night confirmations and the fake-vote tally as the first one left them.
\<close>

theorem night_confirm_idempotent:
  "nightConfirmations
     (processPlayerAction rnd2 (processPlayerAction rnd1 s playerId ''NIGHT_CONFIRM'' d1)
        playerId ''NIGHT_CONFIRM'' d2)
     = nightConfirmations (processPlayerAction rnd1 s playerId ''NIGHT_CONFIRM'' d1)
   \<and> fakeVotes
     (processPlayerAction rnd2 (processPlayerAction rnd1 s playerId ''NIGHT_CONFIRM'' d1)
        playerId ''NIGHT_CONFIRM'' d2)
     = fakeVotes (processPlayerAction rnd1 s playerId ''NIGHT_CONFIRM'' d1)"
proof -
  let ?s1 = "processPlayerAction rnd1 s playerId ''NIGHT_CONFIRM'' d1"
  have "playerId \<in> set (nightConfirmations ?s1)"
    by (simp add: finish_confirmations applyAction_nightConfirm nightConfirm_member)
  then have "applyAction rnd2 playerId ''NIGHT_CONFIRM'' d2 ?s1 = ?s1"
    by (simp add: applyAction_nightConfirm nightConfirm_again)
  then show ?thesis by (simp add: finish_confirmations)
qed

theorem night_confirm_idempotent_witness:
  "nightConfirmations
     (processPlayerAction exRand
        (processPlayerAction exRand constableState ''a'' ''NIGHT_CONFIRM'' (exData\<lparr>fakeTargetId := Some ''b''\<rparr>))
        ''a'' ''NIGHT_CONFIRM'' (exData\<lparr>fakeTargetId := Some ''b''\<rparr>)) = [''a'']
   \<and> fakeVotes
     (processPlayerAction exRand
        (processPlayerAction exRand constableState ''a'' ''NIGHT_CONFIRM'' (exData\<lparr>fakeTargetId := Some ''b''\<rparr>))
        ''a'' ''NIGHT_CONFIRM'' (exData\<lparr>fakeTargetId := Some ''b''\<rparr>)) ''b'' = Some 1"
  using night_confirm_idempotent[of exRand exRand constableState "''a''" "exData\<lparr>fakeTargetId := Some ''b''\<rparr>" "exData\<lparr>fakeTargetId := Some ''b''\<rparr>"]
  by (simp add: processPlayerAction_def applyAction_def nightConfirm_def checkWinCondition_def
      constableState_def example_defs)

section \<open>Finding and updating the first match\<close>

lemma find_first:
  "i < length xs \<Longrightarrow> P (xs ! i) \<Longrightarrow> \<forall>k<i. \<not> P (xs ! k) \<Longrightarrow> find P xs = Some (xs ! i)"
proof (induction xs arbitrary: i)
  case Nil
  then show ?case by simp
next
  case (Cons x xs)
  show ?case
  proof (cases i)
    case 0
    with Cons.prems show ?thesis by simp
  next
    case (Suc i')
    from Cons.prems Suc have "\<not> P x" by auto
    moreover from Cons.prems Suc have "find P xs = Some (xs ! i')"
      by (intro Cons.IH) auto
    ultimately show ?thesis using Suc by simp
  qed
qed

lemma updFirst_first:
  "i < length xs \<Longrightarrow> P (xs ! i) \<Longrightarrow> \<forall>k<i. \<not> P (xs ! k) \<Longrightarrow> updFirst P f xs = xs[i := f (xs ! i)]"
proof (induction xs arbitrary: i)
  case Nil
  then show ?case by simp
next
  case (Cons x xs)
  show ?case
  proof (cases i)
    case 0
    with Cons.prems show ?thesis by simp
  next
    case (Suc i')
    from Cons.prems Suc have "\<not> P x" by auto
    moreover from Cons.prems Suc have "updFirst P f xs = xs[i' := f (xs ! i')]"
      by (intro Cons.IH) auto
    ultimately show ?thesis using Suc by simp
  qed
qed

lemma updFirst_none: "\<forall>x\<in>set xs. \<not> P x \<Longrightarrow> updFirst P f xs = xs"
  by (induction xs) auto

lemma find_none: "\<forall>x\<in>set xs. \<not> P x \<Longrightarrow> find P xs = None"
  by (induction xs) auto

section \<open>Confession\<close>

lemma players_finish:
  "players (processPlayerAction rnd s playerId action d)
     = players (applyAction rnd playerId action d s)"
  by (simp add: processPlayerAction_def pushLog_def Let_def split: option.splits)

lemma applyAction_selfReveal:
  "applyAction rnd playerId ''SELF_REVEAL'' d s = selfReveal playerId d s"
  by (simp add: applyAction_def)

lemma addConfirmation_fields:
  "players (addConfirmation playerId s) = players s"
  "nightConfirmations (addConfirmation playerId s)
     = (if playerId \<in> set (nightConfirmations s) then nightConfirmations s
        else nightConfirmations s @ [playerId])"
  by (simp_all add: addConfirmation_def)

lemma selfReveal_confirmations:
  "nightConfirmations (selfReveal playerId d s)
     = (if playerId \<in> set (nightConfirmations s) then nightConfirmations s
        else nightConfirmations s @ [playerId])"
  by (simp add: selfReveal_def addConfirmation_fields pushLog_def split: option.splits)

lemma selfReveal_players:
  "players (selfReveal playerId d s) =
     (case find (\<lambda>p. pid p = playerId) (players s) of
        None \<Rightarrow> players s
      | Some player \<Rightarrow>
          (case find (\<lambda>c. Some (cid c) = cardId d) (cards player) of
             None \<Rightarrow> players s
           | Some c \<Rightarrow> updFirst (\<lambda>p. pid p = playerId)
                (\<lambda>p. p\<lparr>cards := revealCard (cardId d) (cards p), immune := True\<rparr>) (players s)))"
  by (simp add: selfReveal_def addConfirmation_fields pushLog_def split: option.splits)

lemmas action_defs =
  processPlayerAction_def applyAction_def addConfirmation_def pushLog_def revealCard_def
  checkWinCondition_def winMessage_def

section \<open>What every action keeps\<close>

lemma updFirst_set: "x \<in> set (updFirst P f xs) \<Longrightarrow> x \<in> set xs \<or> (\<exists>y\<in>set xs. x = f y)"
  by (induction xs) (auto split: if_splits)

lemma find_Some_set: "find P xs = Some x \<Longrightarrow> x \<in> set xs \<and> P x"
  by (induction xs) (auto split: if_splits)

lemma findIndex_Some: "findIndex P xs = Some i \<Longrightarrow> i < length xs \<and> P (xs ! i)"
  by (induction xs arbitrary: i) (auto split: if_splits)

lemma accuseStart_keeps:
  "players (accuseStart playerId d s) = players s"
  "isSmallGameMode (accuseStart playerId d s) = isSmallGameMode s"
  by (simp_all add: accuseStart_def pushLog_def Let_def split: option.splits)

lemma accuseAccept_keeps:
  "players (accuseAccept playerId s) = players s"
  "isSmallGameMode (accuseAccept playerId s) = isSmallGameMode s"
  by (simp_all add: accuseAccept_def pushLog_def split: option.splits)

lemma accuseCancel_keeps:
  "players (accuseCancel s) = players s"
  "isSmallGameMode (accuseCancel s) = isSmallGameMode s"
  by (simp_all add: accuseCancel_def pushLog_def split: option.splits)

lemma nightConfirm_keeps:
  "players (nightConfirm playerId d s) = players s"
  "isSmallGameMode (nightConfirm playerId d s) = isSmallGameMode s"
  by (simp_all add: nightConfirm_def Let_def split: option.splits)

lemma addConfirmation_mode:
  "isSmallGameMode (addConfirmation playerId s) = isSmallGameMode s"
  by (simp add: addConfirmation_def)

lemma killVote_keeps:
  "players (killVote playerId d s) = players s"
  "isSmallGameMode (killVote playerId d s) = isSmallGameMode s"
  by (simp_all add: killVote_def recordWitchVote_def addConfirmation_def Let_def
      split: option.splits)

lemma guard_keeps:
  "players (guardVote playerId d s) = players s"
  "isSmallGameMode (guardVote playerId d s) = isSmallGameMode s"
  "players (guardSkip playerId s) = players s"
  "isSmallGameMode (guardSkip playerId s) = isSmallGameMode s"
  by (simp_all add: guardVote_def guardSkip_def addConfirmation_def)

lemma triggerConspiracy_keeps:
  "players (triggerConspiracy s) = players s"
  "isSmallGameMode (triggerConspiracy s) = isSmallGameMode s"
  by (simp_all add: triggerConspiracy_def pushLog_def)

lemma blackCat_mode: "isSmallGameMode (blackCat playerId d s) = isSmallGameMode s"
  by (simp add: blackCat_def recordWitchVote_def addConfirmation_def Let_def split: option.splits)

lemma selfReveal_mode: "isSmallGameMode (selfReveal playerId d s) = isSmallGameMode s"
  by (simp add: selfReveal_def addConfirmation_def pushLog_def split: option.splits)

lemma shuffleHand_mode:
  "isSmallGameMode (shuffleHand rnd playerId s) = isSmallGameMode s"
  "isSmallGameMode (shuffleGhost rnd d s) = isSmallGameMode s"
  by (simp_all add: shuffleHand_def shuffleGhost_def)

lemma accuseReveal_mode: "isSmallGameMode (accuseReveal rnd playerId d s) = isSmallGameMode s"
  by (simp add: accuseReveal_def pushLog_def Let_def split: option.splits)

lemma nightDamageSelect_mode:
  "isSmallGameMode (nightDamageSelect playerId d s) = isSmallGameMode s"
  by (simp add: nightDamageSelect_def pushLog_def Let_def split: option.splits)

lemma nightDamageSelect_players:
  "players (nightDamageSelect playerId d s) =
     (case nightDamageSelection s of
        None \<Rightarrow> players s
      | Some nds \<Rightarrow>
          if chooserId nds = playerId then
            map (\<lambda>p. if pid p \<noteq> dmgTargetId nds then p
                      else p\<lparr>cards := map (\<lambda>c. c\<lparr>isRevealed :=
                                          (if cid c \<in> set (cardIds d) then True
                                           else isRevealed c)\<rparr>) (cards p),
                             isDead := list_all isRevealed
                               (map (\<lambda>c. c\<lparr>isRevealed :=
                                          (if cid c \<in> set (cardIds d) then True
                                           else isRevealed c)\<rparr>) (cards p))\<rparr>)
              (players s)
          else players s)"
  by (simp add: nightDamageSelect_def pushLog_def Let_def split: option.splits)

lemma resolveConspiracy_mode:
  "isSmallGameMode (resolveConspiracy rnd s) = isSmallGameMode s"
  by (simp add: resolveConspiracy_def pushLog_def Let_def split: prod.splits)

lemma conspiracySelect_mode:
  "isSmallGameMode (conspiracySelect rnd playerId action d s) = isSmallGameMode s"
  by (simp add: conspiracySelect_def resolveConspiracy_mode Let_def)

lemma applyAction_mode:
  "isSmallGameMode (applyAction rnd playerId action d s) = isSmallGameMode s"
  by (simp add: applyAction_def accuseStart_keeps accuseAccept_keeps accuseCancel_keeps
      accuseReveal_mode nightConfirm_keeps blackCat_mode killVote_keeps guard_keeps
      selfReveal_mode addConfirmation_mode shuffleHand_mode nightDamageSelect_mode
      triggerConspiracy_keeps conspiracySelect_mode)

section \<open>Confession: roster and log\<close>

lemma logs_finish:
  "logs (processPlayerAction rnd s playerId action d)
     = logs (applyAction rnd playerId action d s)
       @ (case checkWinCondition (players (applyAction rnd playerId action d s))
                 (isSmallGameMode (applyAction rnd playerId action d s)) of
            Some win \<Rightarrow> if phase s \<noteq> GAME_OVER then [winMessage win] else []
          | None \<Rightarrow> [])"
  by (simp add: processPlayerAction_def pushLog_def Let_def split: option.splits)

lemma selfReveal_logs:
  "logs (selfReveal playerId d s) =
     (case find (\<lambda>p. pid p = playerId) (players s) of
        None \<Rightarrow> logs s
      | Some player \<Rightarrow>
          (case find (\<lambda>c. Some (cid c) = cardId d) (cards player) of
             None \<Rightarrow> logs s
           | Some c \<Rightarrow> logs s @ [name player @ '' confessed to seek safety.'']))"
  by (simp add: selfReveal_def addConfirmation_def pushLog_def split: option.splits)

lemma self_reveal_logs_finish:
  "logs (processPlayerAction rnd s playerId ''SELF_REVEAL'' d)
     = logs (selfReveal playerId d s)
       @ (case checkWinCondition (players (processPlayerAction rnd s playerId ''SELF_REVEAL'' d))
                 (isSmallGameMode s) of
            Some win \<Rightarrow> if phase s \<noteq> GAME_OVER then [winMessage win] else []
          | None \<Rightarrow> [])"
  by (simp only: logs_finish players_finish applyAction_selfReveal selfReveal_mode)

text \<open>
  C4 (as amended). \<open>SELF_REVEAL\<close> tests neither that the caller is alive nor the role or
  the revealed flag of the named card. When the caller is in the roster and names a card
  of the caller's hand, that card is marked revealed, the caller becomes immune and the
  entry \<open>name confessed to seek safety.\<close> is appended to the log; when the caller is
  unknown or the hand has no card of that id, the roster is unchanged and no such entry
  is logged. In every case the caller joins the night confirmations if not yet there, and
  the log ends with the entry of the closing win check when that check fires on a state
  whose phase was not \<open>GAME_OVER\<close>.
\<close>

theorem self_reveal_effect:
  "nightConfirmations (processPlayerAction rnd s playerId ''SELF_REVEAL'' d)
     = (if playerId \<in> set (nightConfirmations s) then nightConfirmations s
        else nightConfirmations s @ [playerId])
   \<and> (\<forall>i<length (players s).
         pid (players s ! i) = playerId \<and> (\<forall>k<i. pid (players s ! k) \<noteq> playerId) \<longrightarrow>
           (\<forall>j<length (cards (players s ! i)).
              Some (cid (cards (players s ! i) ! j)) = cardId d
              \<and> (\<forall>k<j. Some (cid (cards (players s ! i) ! k)) \<noteq> cardId d) \<longrightarrow>
                players (processPlayerAction rnd s playerId ''SELF_REVEAL'' d)
                  = (players s)[i := (players s ! i)
                       \<lparr>cards := (cards (players s ! i))
                          [j := (cards (players s ! i) ! j)\<lparr>isRevealed := True\<rparr>],
                        immune := True\<rparr>]
                \<and> logs (processPlayerAction rnd s playerId ''SELF_REVEAL'' d)
                  = logs s @ [name (players s ! i) @ '' confessed to seek safety.'']
                    @ (case checkWinCondition
                              (players (processPlayerAction rnd s playerId ''SELF_REVEAL'' d))
                              (isSmallGameMode s) of
                         Some win \<Rightarrow> if phase s \<noteq> GAME_OVER then [winMessage win] else []
                       | None \<Rightarrow> []))
           \<and> ((\<forall>c\<in>set (cards (players s ! i)). Some (cid c) \<noteq> cardId d) \<longrightarrow>
                players (processPlayerAction rnd s playerId ''SELF_REVEAL'' d) = players s
                \<and> logs (processPlayerAction rnd s playerId ''SELF_REVEAL'' d)
                  = logs s
                    @ (case checkWinCondition (players s) (isSmallGameMode s) of
                         Some win \<Rightarrow> if phase s \<noteq> GAME_OVER then [winMessage win] else []
                       | None \<Rightarrow> [])))
   \<and> ((\<forall>p\<in>set (players s). pid p \<noteq> playerId) \<longrightarrow>
        players (processPlayerAction rnd s playerId ''SELF_REVEAL'' d) = players s
        \<and> logs (processPlayerAction rnd s playerId ''SELF_REVEAL'' d)
          = logs s
            @ (case checkWinCondition (players s) (isSmallGameMode s) of
                 Some win \<Rightarrow> if phase s \<noteq> GAME_OVER then [winMessage win] else []
               | None \<Rightarrow> []))"
proof -
  let ?s' = "processPlayerAction rnd s playerId ''SELF_REVEAL'' d"
  let ?P = "\<lambda>p. pid p = playerId" and ?Q = "\<lambda>c. Some (cid c) = cardId d"
  have conf: "nightConfirmations ?s'
     = (if playerId \<in> set (nightConfirmations s) then nightConfirmations s
        else nightConfirmations s @ [playerId])"
    by (simp add: finish_confirmations applyAction_selfReveal selfReveal_confirmations)
  have hit: "players ?s' = (players s)[i := (players s ! i)
                       \<lparr>cards := (cards (players s ! i))
                          [j := (cards (players s ! i) ! j)\<lparr>isRevealed := True\<rparr>],
                        immune := True\<rparr>]
             \<and> logs (selfReveal playerId d s)
                 = logs s @ [name (players s ! i) @ '' confessed to seek safety.'']"
    if i: "i < length (players s)"
      and pi: "pid (players s ! i) = playerId \<and> (\<forall>k<i. pid (players s ! k) \<noteq> playerId)"
      and j: "j < length (cards (players s ! i))"
      and cj: "Some (cid (cards (players s ! i) ! j)) = cardId d
              \<and> (\<forall>k<j. Some (cid (cards (players s ! i) ! k)) \<noteq> cardId d)" for i j
  proof -
    have fp: "find ?P (players s) = Some (players s ! i)"
      using i pi by (intro find_first) auto
    have fc: "find ?Q (cards (players s ! i)) = Some (cards (players s ! i) ! j)"
      using j cj by (intro find_first) auto
    have rc: "revealCard (cardId d) (cards (players s ! i))
              = (cards (players s ! i))[j := (cards (players s ! i) ! j)\<lparr>isRevealed := True\<rparr>]"
      unfolding revealCard_def using j cj by (intro updFirst_first) auto
    have "updFirst ?P (\<lambda>p. p\<lparr>cards := revealCard (cardId d) (cards p), immune := True\<rparr>) (players s)
          = (players s)[i := (players s ! i)\<lparr>cards := revealCard (cardId d) (cards (players s ! i)),
                                                immune := True\<rparr>]"
      using i pi by (intro updFirst_first) auto
    then show ?thesis
      by (simp add: players_finish applyAction_selfReveal selfReveal_players selfReveal_logs
          fp fc rc)
  qed
  have miss: "players ?s' = players s \<and> logs (selfReveal playerId d s) = logs s"
    if i: "i < length (players s)"
      and pi: "pid (players s ! i) = playerId \<and> (\<forall>k<i. pid (players s ! k) \<noteq> playerId)"
      and no: "\<forall>c\<in>set (cards (players s ! i)). Some (cid c) \<noteq> cardId d" for i
  proof -
    have fp: "find ?P (players s) = Some (players s ! i)"
      using i pi by (intro find_first) auto
    have fc: "find ?Q (cards (players s ! i)) = None"
      using no by (intro find_none) auto
    show ?thesis
      by (simp add: players_finish applyAction_selfReveal selfReveal_players selfReveal_logs
          fp fc)
  qed
  have absent: "players ?s' = players s \<and> logs (selfReveal playerId d s) = logs s"
    if "\<forall>p\<in>set (players s). pid p \<noteq> playerId"
  proof -
    from that have "find ?P (players s) = None" by (intro find_none) auto
    then show ?thesis
      by (simp add: players_finish applyAction_selfReveal selfReveal_players selfReveal_logs)
  qed
  show ?thesis
  proof (intro conjI allI impI)
    show "nightConfirmations ?s'
     = (if playerId \<in> set (nightConfirmations s) then nightConfirmations s
        else nightConfirmations s @ [playerId])" by (rule conf)
  qed (use hit miss absent in \<open>simp_all add: self_reveal_logs_finish\<close>)
qed

theorem self_reveal_effect_witness:
  "players (processPlayerAction exRand confessState ''u'' ''SELF_REVEAL''
              (exData\<lparr>cardId := Some ''c5''\<rparr>))
     = (players confessState)
         [2 := (exPlayer ''u'' [exCard ''c5'' NOT_A_WITCH True, exCard ''c6'' CONSTABLE True])
                 \<lparr>immune := True\<rparr>]
   \<and> nightConfirmations (processPlayerAction exRand confessState ''u'' ''SELF_REVEAL''
              (exData\<lparr>cardId := Some ''c5''\<rparr>)) = [''u'']
   \<and> logs (processPlayerAction exRand confessState ''u'' ''SELF_REVEAL''
              (exData\<lparr>cardId := Some ''c5''\<rparr>)) = [''u confessed to seek safety.'']"
  using self_reveal_effect[of exRand confessState "''u''" "exData\<lparr>cardId := Some ''c5''\<rparr>"]
  by (simp add: action_defs selfReveal_def confessState_def example_defs)

text \<open>
  C4 as stated fails: a witch card named in \<open>SELF_REVEAL\<close> is revealed and its holder made
  immune; a dead caller's card is revealed; naming an already revealed card grants
  immunity.
\<close>

theorem self_reveal_unguarded:
  "ctype (cards (players confessState ! 0) ! 0) = Some WITCH
   \<and> \<not> isRevealed (cards (players confessState ! 0) ! 0)
   \<and> \<not> immune (players confessState ! 0)
   \<and> isRevealed (cards (players (processPlayerAction exRand confessState ''w'' ''SELF_REVEAL''
                                   (exData\<lparr>cardId := Some ''c1''\<rparr>)) ! 0) ! 0)
   \<and> immune (players (processPlayerAction exRand confessState ''w'' ''SELF_REVEAL''
                        (exData\<lparr>cardId := Some ''c1''\<rparr>)) ! 0)
   \<and> isDead (players confessState ! 1)
   \<and> \<not> isRevealed (cards (players confessState ! 1) ! 0)
   \<and> isRevealed (cards (players (processPlayerAction exRand confessState ''t'' ''SELF_REVEAL''
                                   (exData\<lparr>cardId := Some ''c3''\<rparr>)) ! 1) ! 0)
   \<and> isRevealed (cards (players confessState ! 2) ! 1)
   \<and> \<not> immune (players confessState ! 2)
   \<and> immune (players (processPlayerAction exRand confessState ''u'' ''SELF_REVEAL''
                        (exData\<lparr>cardId := Some ''c6''\<rparr>)) ! 2)"
  by (simp add: action_defs selfReveal_def confessState_def example_defs)

section \<open>Witch votes\<close>

lemma addGhostVotes_filter:
  "playerId \<in> voterId ` set votes \<Longrightarrow>
     filter (\<lambda>v. voterId v = playerId) (addGhostVotes gs tId tName votes)
       = filter (\<lambda>v. voterId v = playerId) votes"
  by (induction gs arbitrary: votes) (auto simp: list_ex_iff)

text \<open>
  A \<open>KILL_VOTE\<close> of a voter of the roster for a target of the roster leaves exactly one
  vote of that voter, for that target, and makes the target the night's kill target.
\<close>

lemma killVote_single_vote:
  assumes "find (\<lambda>p. pid p = playerId) (players s) = Some voter"
    and "find (\<lambda>p. Some (pid p) = targetId d) (players s) = Some target"
  shows "filter (\<lambda>v. voterId v = playerId)
           (witchVotes (processPlayerAction rnd s playerId ''KILL_VOTE'' d))
         = [\<lparr>voterId = playerId, witchName = name voter, voteTargetId = pid target,
             voteTargetName = name target\<rparr>]
       \<and> nightKillTargetId (processPlayerAction rnd s playerId ''KILL_VOTE'' d) = targetId d"
proof -
  have w: "witchVotes (processPlayerAction rnd s playerId ''KILL_VOTE'' d)
             = witchVotes (killVote playerId d s)"
    and k: "nightKillTargetId (processPlayerAction rnd s playerId ''KILL_VOTE'' d)
             = nightKillTargetId (killVote playerId d s)"
    by (simp_all add: processPlayerAction_def applyAction_def pushLog_def Let_def
        split: option.splits)
  show ?thesis
    unfolding w k using assms
    by (simp add: killVote_def recordWitchVote_def addConfirmation_def Let_def
        addGhostVotes_filter)
qed

text \<open>
  C6 fails on the mirrored votes. A living ghost witch gets a vote only while it has none:
  after the witch \<open>w\<close> votes for \<open>a\<close> and then for \<open>b\<close>, the ghost's vote still names
  \<open>a\<close>, although the handler's comment says that the ghosts match the real witch's vote.
\<close>

theorem kill_vote_ghost_vote_stale:
  "witchVotes
     (processPlayerAction exRand
        (processPlayerAction exRand ghostVoteState ''w'' ''KILL_VOTE''
           (exData\<lparr>targetId := Some ''a''\<rparr>))
        ''w'' ''KILL_VOTE'' (exData\<lparr>targetId := Some ''b''\<rparr>))
     = [\<lparr>voterId = ''g'', witchName = ''g'', voteTargetId = ''a'', voteTargetName = ''a''\<rparr>,
        \<lparr>voterId = ''w'', witchName = ''w'', voteTargetId = ''b'', voteTargetName = ''b''\<rparr>]
   \<and> nightKillTargetId
     (processPlayerAction exRand
        (processPlayerAction exRand ghostVoteState ''w'' ''KILL_VOTE''
           (exData\<lparr>targetId := Some ''a''\<rparr>))
        ''w'' ''KILL_VOTE'' (exData\<lparr>targetId := Some ''b''\<rparr>)) = Some ''b''"
  by (simp add: action_defs killVote_def recordWitchVote_def ghostVoteState_def example_defs)

section \<open>Conspiracy: the transfers\<close>

lemma findIndex_exists: "\<exists>x\<in>set xs. P x \<Longrightarrow> \<exists>i. findIndex P xs = Some i"
  by (induction xs) auto

lemma mset_splice:
  "i < length xs \<Longrightarrow> mset (take i xs @ drop (Suc i) xs) + {#xs ! i#} = mset xs"
proof -
  assume "i < length xs"
  then have "xs = take i xs @ xs ! i # drop (Suc i) xs" by (rule id_take_nth_drop)
  then have "mset xs = mset (take i xs @ xs ! i # drop (Suc i) xs)" by simp
  then show ?thesis by simp
qed

lemma sum_list_indicator_absent:
  "x \<notin> set ks \<Longrightarrow> sum_list (map (\<lambda>k. if k = x then v else ({#} :: 'a multiset)) ks) = {#}"
  by (induction ks) auto

lemma sum_list_indicator:
  "distinct ks \<Longrightarrow> x \<in> set ks \<Longrightarrow>
     sum_list (map (\<lambda>k. if k = x then v else ({#} :: 'a multiset)) ks) = v"
  by (induction ks) (auto simp: sum_list_indicator_absent)

lemma applyTransfer_step:
  assumes src: "m (fromPlayerId t) = Some fc"
    and dst: "m (toPlayerId t) = Some tc"
    and pick: "\<exists>c\<in>set fc. Some (cid c) = transferCardId t"
  shows "\<exists>m' w' moved. applyTransfer t (m, w) = (m', w') \<and> dom m' = dom m
           \<and> (\<forall>k. mset (handOf m' k) + (if k = fromPlayerId t then {#moved#} else {#})
                    = mset (handOf m k) + (if k = toPlayerId t then {#moved#} else {#}))
           \<and> (\<forall>k. k \<noteq> fromPlayerId t \<longrightarrow> set (handOf m k) \<subseteq> set (handOf m' k))"
proof -
  from findIndex_exists[OF pick] obtain i
    where fi: "findIndex (\<lambda>c. Some (cid c) = transferCardId t) fc = Some i" by blast
  then have i: "i < length fc" by (auto dest: findIndex_Some)
  let ?spliced = "take i fc @ drop (Suc i) fc"
  let ?dest = "if toPlayerId t = fromPlayerId t then ?spliced else tc"
  let ?m' = "m(fromPlayerId t \<mapsto> ?spliced, toPlayerId t \<mapsto> ?dest @ [fc ! i])"
  let ?w' = "if ctype (fc ! i) = Some WITCH then w @ [toPlayerId t] else w"
  have run: "applyTransfer t (m, w) = (?m', ?w')"
    using src dst fi by (simp add: applyTransfer_def Let_def)
  have d: "dom ?m' = dom m" using src dst by auto
  have sp: "mset ?spliced + {#fc ! i#} = mset fc" by (rule mset_splice[OF i])
  have bal: "mset (handOf ?m' k) + (if k = fromPlayerId t then {#fc ! i#} else {#})
               = mset (handOf m k) + (if k = toPlayerId t then {#fc ! i#} else {#})" for k
    using src dst sp by (auto simp: handOf_def)
  have sub: "set (handOf m k) \<subseteq> set (handOf ?m' k)" if "k \<noteq> fromPlayerId t" for k
    using that dst by (auto simp: handOf_def)
  from run d bal sub show ?thesis by blast
qed

lemma allCards_step:
  assumes "distinct ks" and "f \<in> set ks" and "t \<in> set ks"
    and "\<forall>k. mset (handOf m' k) + (if k = f then {#moved#} else {#})
              = mset (handOf m k) + (if k = t then {#moved#} else {#})"
  shows "allCards ks m' = allCards ks m"
proof -
  have "sum_list (map (\<lambda>k. mset (handOf m' k) + (if k = f then {#moved#} else {#})) ks)
          = sum_list (map (\<lambda>k. mset (handOf m k) + (if k = t then {#moved#} else {#})) ks)"
    using assms(4) by simp
  then have "allCards ks m' + {#moved#} = allCards ks m + {#moved#}"
    unfolding allCards_def sum_list_addf
    by (simp add: sum_list_indicator[OF assms(1,2)] sum_list_indicator[OF assms(1,3)])
  then show ?thesis by simp
qed

lemma executeTransfers_balance:
  assumes "distinct (map fromPlayerId ts)"
    and "\<forall>t\<in>set ts. fromPlayerId t \<in> dom m \<and> toPlayerId t \<in> dom m
           \<and> (\<exists>c\<in>set (handOf m (fromPlayerId t)). Some (cid c) = transferCardId t)"
    and "distinct ks" and "fromPlayerId ` set ts \<subseteq> set ks" and "toPlayerId ` set ts \<subseteq> set ks"
  shows "dom (fst (fold applyTransfer ts (m, w))) = dom m
         \<and> (\<forall>k. length (handOf (fst (fold applyTransfer ts (m, w))) k)
                   + count_list (map fromPlayerId ts) k
                 = length (handOf m k) + count_list (map toPlayerId ts) k)
         \<and> allCards ks (fst (fold applyTransfer ts (m, w))) = allCards ks m"
  using assms
proof (induction ts arbitrary: m w)
  case Nil
  then show ?case by simp
next
  case (Cons t ts)
  from Cons.prems(2) have t1: "fromPlayerId t \<in> dom m" and t2: "toPlayerId t \<in> dom m"
    and t3: "\<exists>c\<in>set (handOf m (fromPlayerId t)). Some (cid c) = transferCardId t"
    by simp_all
  from t1 obtain fc where src: "m (fromPlayerId t) = Some fc" by blast
  from t2 obtain tc where dst: "m (toPlayerId t) = Some tc" by blast
  from t3 src have pick: "\<exists>c\<in>set fc. Some (cid c) = transferCardId t"
    by (simp add: handOf_def)
  from applyTransfer_step[OF src dst pick, of w] obtain m' w' moved
    where run: "applyTransfer t (m, w) = (m', w')" and d: "dom m' = dom m"
      and bal: "\<forall>k. mset (handOf m' k) + (if k = fromPlayerId t then {#moved#} else {#})
                    = mset (handOf m k) + (if k = toPlayerId t then {#moved#} else {#})"
      and sub: "\<forall>k. k \<noteq> fromPlayerId t \<longrightarrow> set (handOf m k) \<subseteq> set (handOf m' k)"
    by blast
  have pre: "\<forall>u\<in>set ts. fromPlayerId u \<in> dom m' \<and> toPlayerId u \<in> dom m'
           \<and> (\<exists>c\<in>set (handOf m' (fromPlayerId u)). Some (cid c) = transferCardId u)"
  proof
    fix u assume u: "u \<in> set ts"
    have ne: "fromPlayerId u \<noteq> fromPlayerId t"
    proof
      assume "fromPlayerId u = fromPlayerId t"
      with u have "fromPlayerId t \<in> fromPlayerId ` set ts" by (metis imageI)
      with Cons.prems(1) show False by simp
    qed
    from Cons.prems(2) u obtain c where "c \<in> set (handOf m (fromPlayerId u))"
      "Some (cid c) = transferCardId u" by auto
    with sub ne have "\<exists>c\<in>set (handOf m' (fromPlayerId u)). Some (cid c) = transferCardId u"
      by blast
    with Cons.prems(2) u d show "fromPlayerId u \<in> dom m' \<and> toPlayerId u \<in> dom m'
           \<and> (\<exists>c\<in>set (handOf m' (fromPlayerId u)). Some (cid c) = transferCardId u)"
      by simp
  qed
  from Cons.prems have rest: "distinct (map fromPlayerId ts)"
    "fromPlayerId ` set ts \<subseteq> set ks" "toPlayerId ` set ts \<subseteq> set ks" by auto
  note IH = Cons.IH[OF rest(1) pre Cons.prems(3) rest(2,3), of w']
  let ?fin = "fst (fold applyTransfer ts (m', w'))"
  have fin: "fst (fold applyTransfer (t # ts) (m, w)) = ?fin" using run by simp
  have len1: "length (handOf m' k) + (if k = fromPlayerId t then 1 else 0)
                = length (handOf m k) + (if k = toPlayerId t then 1 else 0)" for k
  proof -
    from bal have "size (mset (handOf m' k) + (if k = fromPlayerId t then {#moved#} else {#}))
                     = size (mset (handOf m k) + (if k = toPlayerId t then {#moved#} else {#}))"
      by simp
    then show ?thesis by (simp split: if_splits)
  qed
  have len: "length (handOf ?fin k) + count_list (map fromPlayerId (t # ts)) k
               = length (handOf m k) + count_list (map toPlayerId (t # ts)) k" for k
    using IH len1[of k] by (auto split: if_splits)
  have all1: "allCards ks m' = allCards ks m"
    using Cons.prems(3,4,5) bal by (intro allCards_step[where moved = moved]) auto
  from IH d len all1 show ?case unfolding fin by simp
qed

section \<open>Conspiracy: the ring of the living\<close>

lemma fold_set_other:
  "k \<notin> pid ` set ps \<Longrightarrow> fold (\<lambda>p m. m(pid p \<mapsto> cards p)) ps m k = m k"
  by (induction ps arbitrary: m) auto

lemma fold_set_at:
  "distinct (map pid ps) \<Longrightarrow> p \<in> set ps \<Longrightarrow>
     fold (\<lambda>p m. m(pid p \<mapsto> cards p)) ps m (pid p) = Some (cards p)"
proof (induction ps arbitrary: m)
  case Nil
  then show ?case by simp
next
  case (Cons q ps)
  let ?f = "\<lambda>p m. m(pid p \<mapsto> cards p)"
  have step: "fold ?f (q # ps) m (pid p) = fold ?f ps (m(pid q \<mapsto> cards q)) (pid p)"
    by (simp only: fold.simps comp_apply)
  show ?case
  proof (cases "p = q")
    case True
    with Cons.prems(1) have no: "pid q \<notin> pid ` set ps" by simp
    have "fold ?f (q # ps) m (pid q) = fold ?f ps (m(pid q \<mapsto> cards q)) (pid q)"
      by (simp only: fold.simps comp_apply)
    also have "\<dots> = (m(pid q \<mapsto> cards q)) (pid q)"
      using no by (rule fold_set_other)
    also have "\<dots> = Some (cards q)" by (rule fun_upd_same)
    finally show ?thesis unfolding True .
  next
    case False
    with Cons.prems have "distinct (map pid ps)" and "p \<in> set ps" by simp_all
    then have "fold ?f ps (m(pid q \<mapsto> cards q)) (pid p) = Some (cards p)" by (rule Cons.IH)
    with step show ?thesis by (simp only:)
  qed
qed

lemma initialCardsMap_at:
  "distinct (map pid ps) \<Longrightarrow> p \<in> set ps \<Longrightarrow> initialCardsMap ps (pid p) = Some (cards p)"
  by (simp add: initialCardsMap_def fold_set_at)

lemma findIndex_distinct:
  "distinct (map f xs) \<Longrightarrow> i < length xs \<Longrightarrow> findIndex (\<lambda>x. f x = f (xs ! i)) xs = Some i"
proof (induction xs arbitrary: i)
  case Nil
  then show ?case by simp
next
  case (Cons x xs)
  show ?case
  proof (cases i)
    case 0
    then show ?thesis by simp
  next
    case (Suc j)
    with Cons.prems have j: "j < length xs" and "f (xs ! j) \<in> f ` set xs" by auto
    with Cons.prems(1) have "f x \<noteq> f (xs ! j)" by auto
    with Cons.IH[OF _ j] Cons.prems(1) Suc show ?thesis by simp
  qed
qed

lemma find_distinct:
  "distinct (map f xs) \<Longrightarrow> x \<in> set xs \<Longrightarrow> find (\<lambda>y. f y = f x) xs = Some x"
proof (induction xs)
  case Nil
  then show ?case by simp
next
  case (Cons y ys)
  show ?case
  proof (cases "x = y")
    case True
    then show ?thesis by simp
  next
    case False
    with Cons.prems have "x \<in> set ys" by simp
    then have "f x \<in> f ` set ys" by simp
    with Cons.prems(1) have "f y \<noteq> f x" by auto
    with Cons False show ?thesis by simp
  qed
qed

lemma leftIndex_mod: "i < n \<Longrightarrow> leftIndex (Some i) n = (i + n - 1) mod n"
  by (cases i) (simp_all add: leftIndex_def)

lemma leftNeighborOf_alive:
  assumes "distinct (map pid ps)" and "i < length (filter (\<lambda>p. \<not> isDead p) ps)"
  shows "leftNeighborOf ps (Some (pid (filter (\<lambda>p. \<not> isDead p) ps ! i)))
           = Some (filter (\<lambda>p. \<not> isDead p) ps
                     ! ((i + length (filter (\<lambda>p. \<not> isDead p) ps) - 1)
                         mod length (filter (\<lambda>p. \<not> isDead p) ps)))"
proof -
  let ?alive = "filter (\<lambda>p. \<not> isDead p) ps"
  from assms(1) have d: "distinct (map pid ?alive)" by (rule distinct_map_filter)
  have fi: "findIndex (\<lambda>p. Some (pid p) = Some (pid (?alive ! i))) ?alive = Some i"
    using findIndex_distinct[OF d assms(2)] by simp
  from assms(2) have "0 < length ?alive" by (rule le_less_trans[OF le0])
  then have "(i + length ?alive - 1) mod length ?alive < length ?alive"
    by (rule mod_less_divisor)
  then show ?thesis
    unfolding leftNeighborOf_def Let_def fi leftIndex_mod[OF assms(2)] nthOpt_def by simp
qed

lemma transferFor_alive:
  assumes "distinct (map pid ps)" and "i < length (filter (\<lambda>p. \<not> isDead p) ps)"
    and "selPlayerId x = Some (pid (filter (\<lambda>p. \<not> isDead p) ps ! i))"
  shows "transferFor ps x =
           [\<lparr>fromPlayerId = pid (filter (\<lambda>p. \<not> isDead p) ps
                     ! ((i + length (filter (\<lambda>p. \<not> isDead p) ps) - 1)
                         mod length (filter (\<lambda>p. \<not> isDead p) ps))),
             toPlayerId = pid (filter (\<lambda>p. \<not> isDead p) ps ! i),
             transferCardId = selectedCardId x\<rparr>]"
proof -
  let ?alive = "filter (\<lambda>p. \<not> isDead p) ps"
  from assms(2) have mem: "?alive ! i \<in> set ?alive" by (rule nth_mem)
  then have a: "?alive ! i \<in> set ps" and live: "\<not> isDead (?alive ! i)" by auto
  have f: "find (\<lambda>p. Some (pid p) = Some (pid (?alive ! i))) ps = Some (?alive ! i)"
    using find_distinct[OF assms(1) a] by simp
  show ?thesis
    unfolding transferFor_def assms(3) f leftNeighborOf_alive[OF assms(1,2)]
    using live by simp
qed

lemma ghostSelections_selector:
  "x \<in> set (ghostSelections draw ps) \<Longrightarrow> \<exists>g\<in>set ps. isGhost g \<and> selPlayerId x = Some (pid g)"
  unfolding ghostSelections_def ghostSelection_def Let_def
  by (auto split: if_splits prod.splits dest!: set_zip_rightD)

lemma ring_shift:
  assumes "xs \<noteq> []"
  shows "mset (map (\<lambda>i. xs ! ((i + length xs - 1) mod length xs)) [0..<length xs]) = mset xs"
proof -
  have "map (\<lambda>i. xs ! ((i + length xs - 1) mod length xs)) [0..<length xs]
          = rotate (length xs - 1) xs"
  proof (rule nth_equalityI)
    show "length (map (\<lambda>i. xs ! ((i + length xs - 1) mod length xs)) [0..<length xs])
            = length (rotate (length xs - 1) xs)" by simp
  next
    fix i assume "i < length (map (\<lambda>i. xs ! ((i + length xs - 1) mod length xs)) [0..<length xs])"
    then have i: "i < length xs" by simp
    from assms have "length xs - 1 + i = i + length xs - 1" by (cases xs) simp_all
    with i show "map (\<lambda>i. xs ! ((i + length xs - 1) mod length xs)) [0..<length xs] ! i
                   = rotate (length xs - 1) xs ! i"
      by (simp add: nth_rotate)
  qed
  moreover have "mset (rotate (length xs - 1) xs) = mset xs"
  proof -
    let ?k = "(length xs - 1) mod length xs"
    have "mset (drop ?k xs @ take ?k xs) = mset (take ?k xs @ drop ?k xs)"
      by (simp only: mset_append add.commute)
    then show ?thesis by (simp only: rotate_drop_take append_take_drop_id)
  qed
  ultimately show ?thesis by simp
qed

lemma ring_shift_all:
  "mset (map (\<lambda>i. xs ! ((i + length xs - 1) mod length xs)) [0..<length xs]) = mset xs"
proof (cases "xs = []")
  case True
  then show ?thesis by simp
next
  case False
  then show ?thesis by (rule ring_shift)
qed

lemma map_enumerate_cong:
  "(\<And>k p. p \<in> set ps \<Longrightarrow> F (f k p) = G p) \<Longrightarrow>
     map F (map (\<lambda>(k, p). f k p) (enumerate n ps)) = map G ps"
  by (induction ps arbitrary: n) simp_all

lemma applyAction_conspiracySelect:
  "applyAction rnd playerId ''CONSPIRACY_SELECT'' d s
     = conspiracySelect rnd playerId ''CONSPIRACY_SELECT'' d s"
  by (simp add: applyAction_def)

lemma selections_finish:
  "conspiracySelections (processPlayerAction rnd s playerId action d)
     = conspiracySelections (applyAction rnd playerId action d s)"
  by (simp add: processPlayerAction_def pushLog_def Let_def split: option.splits)

lemma resolveConspiracy_players:
  "players (resolveConspiracy rnd u) =
     map (\<lambda>(k, p).
            p\<lparr>cards := shuffle (shuffleDraw rnd k)
                 (case fst (executeTransfers
                              (cardTransfers (players u)
                                 (conspiracySelections u @ ghostSelections (ghostDraw rnd) (players u)))
                              (initialCardsMap (players u))) (pid p) of
                    Some cs \<Rightarrow> cs | None \<Rightarrow> cards p),
              hasRevealedWitch :=
                (hasRevealedWitch p
                 \<or> pid p \<in> set (snd (executeTransfers
                              (cardTransfers (players u)
                                 (conspiracySelections u @ ghostSelections (ghostDraw rnd) (players u)))
                              (initialCardsMap (players u)))))\<rparr>)
       (enumerate 0 (players u))"
  "conspiracySelections (resolveConspiracy rnd u) = []"
  by (simp_all add: resolveConspiracy_def pushLog_def Let_def split: prod.splits)

lemma mset_map_eq: "mset xs = mset ys \<Longrightarrow> mset (map f xs) = mset (map f ys)"
  by (drule arg_cong[where f = "image_mset f"]) simp

section \<open>No action hands a living player a hidden witch card\<close>

lemma revealCard_clean:
  "\<forall>c\<in>set cs. \<not> hiddenWitch c \<Longrightarrow> \<forall>c\<in>set (revealCard wanted cs). \<not> hiddenWitch c"
  unfolding revealCard_def by (auto dest!: updFirst_set simp: hiddenWitch_def)

lemma livingClean_updFirst:
  assumes "livingClean ps"
    and "\<And>y. y \<in> set ps \<Longrightarrow> \<not> isDead (f y) \<Longrightarrow> \<forall>c\<in>set (cards (f y)). \<not> hiddenWitch c"
  shows "livingClean (updFirst P f ps)"
  unfolding livingClean_def
proof (intro ballI impI)
  fix q c assume q: "q \<in> set (updFirst P f ps)" and live: "\<not> isDead q" and c: "c \<in> set (cards q)"
  from updFirst_set[OF q] show "\<not> hiddenWitch c"
  proof
    assume "q \<in> set ps" with assms(1) live c show ?thesis by (auto simp: livingClean_def)
  next
    assume "\<exists>y\<in>set ps. q = f y"
    then obtain y where "y \<in> set ps" "q = f y" by blast
    with assms(2) live c show ?thesis by blast
  qed
qed

lemma blackCat_living: "livingClean (players s) \<Longrightarrow> livingClean (players (blackCat playerId d s))"
  by (auto simp: blackCat_def recordWitchVote_def addConfirmation_def Let_def livingClean_def
      split: option.splits)

lemma selfReveal_living:
  assumes "livingClean (players s)"
  shows "livingClean (players (selfReveal playerId d s))"
proof -
  have shown: "\<forall>c\<in>set (revealCard w (cards t)). \<not> hiddenWitch c"
    if "t \<in> set (players s)" "\<not> isDead t" for w t
    using that assms by (intro revealCard_clean) (auto simp: livingClean_def)
  have "livingClean (updFirst (\<lambda>p. pid p = playerId)
          (\<lambda>p. p\<lparr>cards := revealCard (cardId d) (cards p), immune := True\<rparr>) (players s))"
    by (rule livingClean_updFirst[OF assms]) (simp add: shown)
  with assms show ?thesis
    by (simp add: selfReveal_players split: option.splits)
qed

lemma shuffleHidden_cards: "set (cards (shuffleHidden draw p)) = set (cards p)"
  by (auto simp: shuffleHidden_def Let_def set_shuffle)

lemma shuffleHidden_dead: "isDead (shuffleHidden draw p) = isDead p"
  by (simp add: shuffleHidden_def Let_def)

lemma shuffle_living:
  assumes "livingClean (players s)"
  shows "livingClean (players (shuffleHand rnd playerId s))"
    and "livingClean (players (shuffleGhost rnd d s))"
proof -
  have "livingClean (updFirst P (shuffleHidden draw) (players s))" for P draw
    by (rule livingClean_updFirst[OF assms])
      (use assms in \<open>auto simp: livingClean_def shuffleHidden_cards shuffleHidden_dead\<close>)
  then show "livingClean (players (shuffleHand rnd playerId s))"
    and "livingClean (players (shuffleGhost rnd d s))"
    by (simp_all add: shuffleHand_def shuffleGhost_def)
qed

lemma accuseReveal_living:
  assumes "livingClean (players s)"
  shows "livingClean (players (accuseReveal rnd playerId d s))"
proof -
  have upd: "livingClean (updFirst P (\<lambda>p. q) (players s))"
    if "\<not> isDead q \<Longrightarrow> \<forall>c\<in>set (cards q). \<not> hiddenWitch c" for P q
    by (rule livingClean_updFirst[OF assms]) (use that in blast)
  have shown: "\<forall>c\<in>set (revealCard w (cards t)). \<not> hiddenWitch c"
    if "t \<in> set (players s)" "\<not> isDead t" for w t
    using that assms by (intro revealCard_clean) (auto simp: livingClean_def)
  show ?thesis
    using assms
    by (auto simp: accuseReveal_def pushLog_def Let_def shown
        split: option.splits dest!: find_Some_set intro!: upd)
qed

lemma nightDamageSelect_idle:
  "nightDamageSelection s = None \<Longrightarrow> nightDamageSelect playerId d s = s"
  by (simp add: nightDamageSelect_def)


lemma livingHandsClean_applyTransfer:
  assumes inv: "livingHandsClean ps (fst st)"
    and src: "\<exists>p\<in>set ps. \<not> isDead p \<and> fromPlayerId t = pid p"
  shows "livingHandsClean ps (fst (applyTransfer t st))"
proof (cases st)
  case (Pair m w)
  with inv have m: "livingHandsClean ps m" by simp
  show ?thesis
  proof (cases "m (fromPlayerId t)")
    case None
    with m Pair show ?thesis by (simp add: applyTransfer_def)
  next
    case sf: (Some fromCards)
    show ?thesis
    proof (cases "m (toPlayerId t)")
      case None
      with m Pair sf show ?thesis by (simp add: applyTransfer_def)
    next
      case st: (Some toCards)
      show ?thesis
      proof (cases "findIndex (\<lambda>c. Some (cid c) = transferCardId t) fromCards")
        case None
        with m Pair sf st show ?thesis by (simp add: applyTransfer_def)
      next
        case (Some i)
        then have i: "i < length fromCards" by (auto dest: findIndex_Some)
        let ?spliced = "take i fromCards @ drop (Suc i) fromCards"
        let ?dest = "if toPlayerId t = fromPlayerId t then ?spliced else toCards"
        let ?m' = "m(fromPlayerId t \<mapsto> ?spliced, toPlayerId t \<mapsto> ?dest @ [fromCards ! i])"
        from src obtain p0 where p0: "p0 \<in> set ps" "\<not> isDead p0" "fromPlayerId t = pid p0"
          by blast
        with m sf have fc: "\<forall>c\<in>set fromCards. \<not> hiddenWitch c"
          by (auto simp: livingHandsClean_def handOf_def)
        have sp: "\<forall>c\<in>set ?spliced. \<not> hiddenWitch c"
          using fc by (auto dest: in_set_takeD in_set_dropD)
        have mv: "\<not> hiddenWitch (fromCards ! i)" using fc i by simp
        have "livingHandsClean ps ?m'"
          unfolding livingHandsClean_def
        proof (intro ballI impI)
          fix p c assume p: "p \<in> set ps" "\<not> isDead p" and c: "c \<in> set (handOf ?m' (pid p))"
          from m p have old: "\<forall>c\<in>set (handOf m (pid p)). \<not> hiddenWitch c"
            by (simp add: livingHandsClean_def)
          show "\<not> hiddenWitch c"
          proof (cases "pid p = toPlayerId t")
            case True
            with st old have "\<forall>c\<in>set toCards. \<not> hiddenWitch c" by (simp add: handOf_def)
            with True c sp mv show ?thesis by (auto simp: handOf_def split: if_splits)
          next
            case False
            with c sp old show ?thesis by (auto simp: handOf_def split: if_splits)
          qed
        qed
        then show ?thesis
          using Pair sf st Some by (simp add: applyTransfer_def Let_def)
      qed
    qed
  qed
qed

lemma livingHandsClean_fold:
  "livingHandsClean ps (fst st) \<Longrightarrow>
   \<forall>t\<in>set ts. \<exists>p\<in>set ps. \<not> isDead p \<and> fromPlayerId t = pid p \<Longrightarrow>
   livingHandsClean ps (fst (fold applyTransfer ts st))"
  by (induction ts arbitrary: st) (simp_all add: livingHandsClean_applyTransfer)

lemma nthOpt_Some: "nthOpt xs i = Some x \<Longrightarrow> x \<in> set xs"
  by (auto simp: nthOpt_def split: if_splits)

lemma leftNeighborOf_Some:
  assumes "leftNeighborOf ps wanted = Some n"
  shows "n \<in> set ps \<and> \<not> isDead n"
proof -
  from assms have "n \<in> set (filter (\<lambda>p. \<not> isDead p) ps)"
    unfolding leftNeighborOf_def Let_def by (rule nthOpt_Some)
  then show ?thesis by simp
qed

lemma transferFor_from_living:
  assumes "t \<in> set (transferFor ps x)"
  shows "\<exists>p\<in>set ps. \<not> isDead p \<and> fromPlayerId t = pid p"
proof (cases "leftNeighborOf ps (selPlayerId x)")
  case None
  with assms show ?thesis
    by (simp add: transferFor_def split: option.splits if_splits)
next
  case (Some n)
  from leftNeighborOf_Some[OF Some] have n: "n \<in> set ps" "\<not> isDead n" by simp_all
  from assms Some have "fromPlayerId t = pid n"
    by (auto simp: transferFor_def split: option.splits if_splits)
  with n show ?thesis by blast
qed

lemma cardTransfers_from_living:
  "t \<in> set (cardTransfers ps sels) \<Longrightarrow> \<exists>p\<in>set ps. \<not> isDead p \<and> fromPlayerId t = pid p"
  unfolding cardTransfers_def by (auto dest: transferFor_from_living)

lemma resolveConspiracy_living:
  assumes "livingClean (players s)" and "distinct (map pid (players s))"
  shows "livingClean (players (resolveConspiracy rnd s))"
proof -
  let ?ps = "players s"
  let ?ts = "cardTransfers ?ps (conspiracySelections s @ ghostSelections (ghostDraw rnd) ?ps)"
  let ?fin = "fst (executeTransfers ?ts (initialCardsMap ?ps))"
  have "livingHandsClean ?ps (initialCardsMap ?ps)"
    using assms by (auto simp: livingHandsClean_def livingClean_def handOf_def initialCardsMap_at)
  then have fin: "livingHandsClean ?ps ?fin"
    unfolding executeTransfers_def
    by (intro livingHandsClean_fold) (auto dest: cardTransfers_from_living)
  show ?thesis
    unfolding resolveConspiracy_players livingClean_def
  proof (intro ballI impI)
    fix q c
    assume q: "q \<in> set (map (\<lambda>(k, p).
            p\<lparr>cards := shuffle (shuffleDraw rnd k)
                 (case ?fin (pid p) of Some cs \<Rightarrow> cs | None \<Rightarrow> cards p),
              hasRevealedWitch :=
                (hasRevealedWitch p
                 \<or> pid p \<in> set (snd (executeTransfers ?ts (initialCardsMap ?ps))))\<rparr>)
       (enumerate 0 ?ps))"
      and live: "\<not> isDead q" and c: "c \<in> set (cards q)"
    from q obtain k p where kp: "(k, p) \<in> set (enumerate 0 ?ps)"
      and qe: "q = p\<lparr>cards := shuffle (shuffleDraw rnd k)
                 (case ?fin (pid p) of Some cs \<Rightarrow> cs | None \<Rightarrow> cards p),
              hasRevealedWitch :=
                (hasRevealedWitch p
                 \<or> pid p \<in> set (snd (executeTransfers ?ts (initialCardsMap ?ps))))\<rparr>"
      by auto
    from kp have "p \<in> set ?ps" by (auto simp: in_set_enumerate_eq)
    moreover from qe live have "\<not> isDead p" by simp
    ultimately have p: "p \<in> set ?ps" "\<not> isDead p" .
    from qe have cq: "cards q = shuffle (shuffleDraw rnd k)
                 (case ?fin (pid p) of Some cs \<Rightarrow> cs | None \<Rightarrow> cards p)"
      by simp
    from c cq have c': "c \<in> set (case ?fin (pid p) of Some cs \<Rightarrow> cs | None \<Rightarrow> cards p)"
      by (simp add: set_shuffle)
    show "\<not> hiddenWitch c"
    proof (cases "?fin (pid p)")
      case None
      with c' assms(1) p show ?thesis by (auto simp: livingClean_def)
    next
      case (Some cs)
      with c' fin p show ?thesis by (auto simp: livingHandsClean_def handOf_def)
    qed
  qed
qed

lemma conspiracySelect_living:
  assumes "livingClean (players s)" and "distinct (map pid (players s))"
  shows "livingClean (players (conspiracySelect rnd playerId action d s))"
  using assms by (simp add: conspiracySelect_def Let_def resolveConspiracy_living)

lemma applyAction_living:
  assumes "livingClean (players s)" and "distinct (map pid (players s))"
    and "nightDamageSelection s = None"
  shows "livingClean (players (applyAction rnd playerId action d s))"
  using assms
  by (simp add: applyAction_def accuseStart_keeps accuseAccept_keeps accuseCancel_keeps
      accuseReveal_living nightConfirm_keeps blackCat_living killVote_keeps guard_keeps
      selfReveal_living addConfirmation_fields shuffle_living nightDamageSelect_idle
      triggerConspiracy_keeps conspiracySelect_living)

lemma livingClean_town: "livingClean ps \<Longrightarrow> checkWinCondition ps False = Some TOWN_WIN"
  unfolding checkWin_standard by (simp add: livingClean_def hiddenWitch_def)

text \<open>
  C10. In standard mode \<open>checkWinCondition\<close> returns \<open>TOWN_WIN\<close> whenever no living
  player holds an unrevealed witch card, in particular when every hand is empty. Hence,
  on a standard-mode state with distinct player ids and no pending night-damage selection
  (which only a small game sets) in which no living player holds an unrevealed witch
  card and whose phase is not \<open>GAME_OVER\<close>, every action ends in phase \<open>GAME_OVER\<close>
  with \<open>Town Win!\<close> appended to the log after the entries of the action itself.
\<close>

theorem town_win_forced:
  "((\<forall>p\<in>set ps. \<not> isDead p \<longrightarrow> (\<forall>c\<in>set (cards p). \<not> (ctype c = Some WITCH \<and> \<not> isRevealed c)))
      \<longrightarrow> checkWinCondition ps False = Some TOWN_WIN)
   \<and> (\<not> isSmallGameMode s \<and> phase s \<noteq> GAME_OVER \<and> nightDamageSelection s = None
        \<and> distinct (map pid (players s))
        \<and> (\<forall>p\<in>set (players s). \<not> isDead p \<longrightarrow>
              (\<forall>c\<in>set (cards p). \<not> (ctype c = Some WITCH \<and> \<not> isRevealed c))) \<longrightarrow>
        phase (processPlayerAction rnd s playerId action d) = GAME_OVER
        \<and> logs (processPlayerAction rnd s playerId action d)
            = logs (applyAction rnd playerId action d s) @ [''Town Win!''])"
proof (intro conjI impI)
  assume "\<forall>p\<in>set ps. \<not> isDead p \<longrightarrow> (\<forall>c\<in>set (cards p). \<not> (ctype c = Some WITCH \<and> \<not> isRevealed c))"
  then show "checkWinCondition ps False = Some TOWN_WIN"
    unfolding checkWin_standard by simp
next
  assume a: "\<not> isSmallGameMode s \<and> phase s \<noteq> GAME_OVER \<and> nightDamageSelection s = None
        \<and> distinct (map pid (players s))
        \<and> (\<forall>p\<in>set (players s). \<not> isDead p \<longrightarrow>
              (\<forall>c\<in>set (cards p). \<not> (ctype c = Some WITCH \<and> \<not> isRevealed c)))"
  let ?u = "applyAction rnd playerId action d s"
  from a have "livingClean (players s)" by (simp add: livingClean_def hiddenWitch_def)
  with a have "livingClean (players ?u)" by (simp add: applyAction_living)
  then have "checkWinCondition (players ?u) False = Some TOWN_WIN" by (rule livingClean_town)
  moreover from a have "isSmallGameMode ?u = False" by (simp add: applyAction_mode)
  ultimately have w: "checkWinCondition (players ?u) (isSmallGameMode ?u) = Some TOWN_WIN"
    by simp
  from a w show "phase (processPlayerAction rnd s playerId action d) = GAME_OVER"
    by (simp add: processPlayerAction_def Let_def pushLog_def)
  from a w show "logs (processPlayerAction rnd s playerId action d)
            = logs (applyAction rnd playerId action d s) @ [''Town Win!'']"
    by (simp add: processPlayerAction_def Let_def pushLog_def winMessage_def)
qed

theorem town_win_forced_witness:
  "checkWinCondition roster4 False = Some TOWN_WIN
   \<and> phase (processPlayerAction exRand (exState SETUP roster4) ''p0'' ''CONFESSION_PASS'' exData)
       = GAME_OVER
   \<and> logs (processPlayerAction exRand (exState SETUP roster4) ''p0'' ''CONFESSION_PASS'' exData)
       = [''Town Win!'']"
  using town_win_forced[of roster4 "exState SETUP roster4" exRand "''p0''" "''CONFESSION_PASS''"
      exData]
  by (simp add: roster4_def applyAction_def addConfirmation_def example_defs)

section \<open>Conspiracy: a round\<close>

lemma conspiracyState_selections:
  "selectionsAtResolution exRand conspiracyState ''p0'' (exData\<lparr>cardId := Some ''a3''\<rparr>)
     = [\<lparr>selPlayerId = Some ''p1'', selectedCardId = Some ''a0''\<rparr>,
        \<lparr>selPlayerId = Some ''p2'', selectedCardId = Some ''a1''\<rparr>,
        \<lparr>selPlayerId = Some ''p3'', selectedCardId = Some ''a2''\<rparr>,
        \<lparr>selPlayerId = Some ''p0'', selectedCardId = Some ''a3''\<rparr>]"
  by (simp add: selectionsAtResolution_def conspiracyState_def ghostSelections_def example_defs)

lemma conspiracyState_alive:
  "filter (\<lambda>p. \<not> isDead p) (players conspiracyState) = players conspiracyState"
  by (simp add: conspiracyState_def example_defs)

lemma conspiracyState_length: "length (players conspiracyState) = 4"
  by (simp add: conspiracyState_def example_defs)

lemma shuffle_keep2: "shuffle (\<lambda>i. i) [a, b] = [a, b]"
  by (simp add: shuffle_def randomIndex_def)

lemma conspiracy_run:
  "map (\<lambda>p. map cid (cards p))
     (players (processPlayerAction exRand conspiracyState ''p0'' ''CONSPIRACY_SELECT''
        (exData\<lparr>cardId := Some ''a3''\<rparr>)))
   = [[''b0'', ''a3''], [''b1'', ''a0''], [''b2'', ''a1''], [''b3'', ''a2'']]"
  by (simp add: processPlayerAction_def applyAction_def conspiracySelect_def
      resolveConspiracy_def ghostSelections_def cardTransfers_def transferFor_def
      leftNeighborOf_def leftIndex_def nthOpt_def executeTransfers_def applyTransfer_def
      initialCardsMap_def pushLog_def checkWinCondition_def winMessage_def shuffle_keep2
      conspiracyState_def example_defs Let_def enumerate_eq_zip upt_rec)


text \<open>
  A round in which the selections at resolution hold exactly one selection for every
  living entity, each naming a card in the hand of the selector's left neighbour (the
  previous living entity, the last one for the first): the selections are cleared, every
  hand keeps its size, and the cards of all hands together, hence their ids, are the same
  multiset as before.
\<close>

lemma transfers_keep_hands:
  assumes dist: "distinct (map pid (players s))"
    and sel: "mset (map selPlayerId (selectionsAtResolution rnd s playerId d))
                = mset (map (\<lambda>p. Some (pid p)) (filter (\<lambda>p. \<not> isDead p) (players s)))"
    and pick: "\<forall>x\<in>set (selectionsAtResolution rnd s playerId d).
                 \<forall>i<length (filter (\<lambda>p. \<not> isDead p) (players s)).
                   selPlayerId x = Some (pid (filter (\<lambda>p. \<not> isDead p) (players s) ! i)) \<longrightarrow>
                   (\<exists>c\<in>set (cards (filter (\<lambda>p. \<not> isDead p) (players s)
                                 ! ((i + length (filter (\<lambda>p. \<not> isDead p) (players s)) - 1)
                                     mod length (filter (\<lambda>p. \<not> isDead p) (players s))))).
                      selectedCardId x = Some (cid c))"
  shows "map (\<lambda>p. length (cards p))
           (players (processPlayerAction rnd s playerId ''CONSPIRACY_SELECT'' d))
           = map (\<lambda>p. length (cards p)) (players s)
         \<and> mset (concat (map cards
              (players (processPlayerAction rnd s playerId ''CONSPIRACY_SELECT'' d))))
           = mset (concat (map cards (players s)))
         \<and> mset (map cid (concat (map cards
              (players (processPlayerAction rnd s playerId ''CONSPIRACY_SELECT'' d)))))
           = mset (map cid (concat (map cards (players s))))
         \<and> conspiracySelections (processPlayerAction rnd s playerId ''CONSPIRACY_SELECT'' d) = []"
proof -
  define ps where "ps = players s"
  define alive where "alive = filter (\<lambda>p. \<not> isDead p) ps"
  define n where "n = length alive"
  define own where "own = filter (\<lambda>x. selPlayerId x \<noteq> Some playerId) (conspiracySelections s)
                     @ [\<lparr>selPlayerId = Some playerId, selectedCardId = cardId d\<rparr>]"
  define allSel where "allSel = own @ ghostSelections (ghostDraw rnd) ps"
  define left where "left = (\<lambda>i. alive ! ((i + n - 1) mod n))"
  have allSel: "selectionsAtResolution rnd s playerId d = allSel"
    by (simp add: selectionsAtResolution_def allSel_def own_def ps_def)
  note sel' = sel[unfolded allSel, folded ps_def, folded alive_def]
  note pick' = pick[unfolded allSel, folded ps_def, folded alive_def, folded n_def, folded left_def]
  have dist': "distinct (map pid ps)" using dist by (simp add: ps_def)
  have distA: "distinct (map pid alive)"
    unfolding alive_def using dist' by (rule distinct_map_filter)
  have aliveD: "a \<in> set ps \<and> \<not> isDead a" if "a \<in> set alive" for a
    using that by (simp add: alive_def)
  have inj: "a = b" if "a \<in> set ps" "b \<in> set ps" "pid a = pid b" for a b
  proof -
    from dist' have "inj_on pid (set ps)" by (simp add: distinct_map)
    then show ?thesis using that(3,1,2) by (rule inj_onD)
  qed

  have idx: "\<exists>i<n. selPlayerId x = Some (pid (alive ! i))" if "x \<in> set allSel" for x
  proof -
    from that have "selPlayerId x \<in> set (map selPlayerId allSel)" by simp
    then have "selPlayerId x \<in># mset (map selPlayerId allSel)" by simp
    then have "selPlayerId x \<in># mset (map (\<lambda>p. Some (pid p)) alive)" by (simp only: sel')
    then have "selPlayerId x \<in> (\<lambda>p. Some (pid p)) ` set alive" by simp
    then obtain a where "a \<in> set alive" "selPlayerId x = Some (pid a)" by blast
    moreover from this obtain i where "i < length alive" "alive ! i = a"
      by (auto simp: in_set_conv_nth)
    ultimately show ?thesis unfolding n_def by auto
  qed
  have covered: "\<exists>x\<in>set allSel. selPlayerId x = Some (pid a)" if "a \<in> set alive" for a
  proof -
    from that have "Some (pid a) \<in># mset (map (\<lambda>p. Some (pid p)) alive)" by simp
    then have "Some (pid a) \<in># mset (map selPlayerId allSel)" by (simp only: sel')
    then show ?thesis by auto
  qed
  have leftn: "left i \<in> set alive" if "i < n" for i
  proof -
    from that have "0 < n" by (rule le_less_trans[OF le0])
    then have "(i + n - 1) mod n < n" by (rule mod_less_divisor)
    then show ?thesis unfolding left_def n_def by (rule nth_mem)
  qed

  \<comment> \<open>every living human has selected: the conspiracy resolves\<close>
  have trig: "list_all (\<lambda>p. list_ex (\<lambda>x. selPlayerId x = Some (pid p)) own)
                (filter (\<lambda>p. \<not> isDead p \<and> \<not> isGhost p) ps)"
    unfolding list_all_iff list_ex_iff
  proof
    fix p assume "p \<in> set (filter (\<lambda>p. \<not> isDead p \<and> \<not> isGhost p) ps)"
    then have p: "p \<in> set ps" "\<not> isGhost p" "p \<in> set alive" by (simp_all add: alive_def)
    from covered[OF p(3)] obtain x where x: "x \<in> set allSel" "selPlayerId x = Some (pid p)"
      by blast
    have "x \<notin> set (ghostSelections (ghostDraw rnd) ps)"
    proof
      assume "x \<in> set (ghostSelections (ghostDraw rnd) ps)"
      then obtain g where g: "g \<in> set ps" "isGhost g" "selPlayerId x = Some (pid g)"
        by (blast dest: ghostSelections_selector)
      with x(2) have "pid g = pid p" by simp
      with g(1) p(1) have "g = p" by (rule inj)
      with g(2) p(2) show False by simp
    qed
    with x show "\<exists>x\<in>set own. selPlayerId x = Some (pid p)" by (auto simp: allSel_def)
  qed

  \<comment> \<open>the transfers: one for each selection, from the left neighbour to the selector\<close>
  define ts where "ts = cardTransfers ps allSel"
  have tf: "\<exists>i<n. selPlayerId x = Some (pid (alive ! i))
              \<and> transferFor ps x = [\<lparr>fromPlayerId = pid (left i), toPlayerId = pid (alive ! i),
                                      transferCardId = selectedCardId x\<rparr>]"
    if "x \<in> set allSel" for x
  proof -
    from idx[OF that] obtain i where i: "i < n" "selPlayerId x = Some (pid (alive ! i))" by blast
    from transferFor_alive[OF dist' i(1)[unfolded n_def alive_def] i(2)[unfolded alive_def]]
    have "transferFor ps x = [\<lparr>fromPlayerId = pid (left i), toPlayerId = pid (alive ! i),
                                transferCardId = selectedCardId x\<rparr>]"
      by (simp add: left_def n_def alive_def)
    with i show ?thesis by blast
  qed
  define leftPid where "leftPid = (\<lambda>k. case findIndex (\<lambda>p. pid p = k) alive of
                                         Some i \<Rightarrow> pid (left i) | None \<Rightarrow> k)"
  have leftPid: "leftPid (pid (alive ! i)) = pid (left i)" if "i < n" for i
    using findIndex_distinct[OF distA that[unfolded n_def]] by (simp add: leftPid_def)
  define g where "g = (\<lambda>x::ConspiracySelection. \<lparr>fromPlayerId = leftPid (the (selPlayerId x)),
                            toPlayerId = the (selPlayerId x),
                            transferCardId = selectedCardId x\<rparr>)"
  have tg: "transferFor ps x = [g x]" if "x \<in> set allSel" for x
    using tf[OF that] by (auto simp: g_def leftPid)
  have "map (transferFor ps) allSel = map (\<lambda>x. [g x]) allSel"
    by (rule map_cong) (simp_all add: tg)
  then have ts: "ts = map g allSel"
    by (simp only: ts_def cardTransfers_def concat_map_singleton)
  have tos: "map toPlayerId ts = map (\<lambda>x. the (selPlayerId x)) allSel"
    by (simp add: ts g_def comp_def)
  have froms: "map fromPlayerId ts = map leftPid (map toPlayerId ts)"
    by (simp add: ts g_def comp_def)
  have "mset (map the (map selPlayerId allSel)) = mset (map the (map (\<lambda>p. Some (pid p)) alive))"
    using sel' by (rule mset_map_eq)
  then have mtos: "mset (map toPlayerId ts) = mset (map pid alive)"
    by (simp add: tos comp_def)
  have "map (\<lambda>a. leftPid (pid a)) alive
          = map (\<lambda>a. leftPid (pid a)) (map ((!) alive) [0..<n])"
    unfolding n_def by (simp only: map_nth)
  also have "\<dots> = map (\<lambda>i. leftPid (pid (alive ! i))) [0..<n]"
    by (simp only: map_map comp_def)
  also have "\<dots> = map (\<lambda>i. pid (left i)) [0..<n]"
    by (rule map_cong) (simp_all add: leftPid)
  finally have lp: "map (\<lambda>a. leftPid (pid a)) alive = map pid (map left [0..<n])"
    by (simp add: comp_def)
  have "mset (map left [0..<n]) = mset alive"
    unfolding left_def n_def by (rule ring_shift_all)
  then have "mset (map pid (map left [0..<n])) = mset (map pid alive)"
    by (rule mset_map_eq)
  with lp have "mset (map (\<lambda>a. leftPid (pid a)) alive) = mset (map pid alive)" by simp
  moreover have "mset (map fromPlayerId ts) = mset (map (\<lambda>a. leftPid (pid a)) alive)"
  proof -
    have "mset (map leftPid (map toPlayerId ts)) = mset (map leftPid (map pid alive))"
      using mtos by (rule mset_map_eq)
    then show ?thesis by (simp add: froms comp_def)
  qed
  ultimately have mfroms: "mset (map fromPlayerId ts) = mset (map pid alive)" by simp
  have dfrom: "distinct (map fromPlayerId ts)"
    using mset_eq_imp_distinct_iff[OF mfroms] distA by simp
  have counts: "count_list (map fromPlayerId ts) k = count_list (map toPlayerId ts) k" for k
  proof -
    have "count (mset (map fromPlayerId ts)) k = count (mset (map toPlayerId ts)) k"
      by (simp only: mfroms mtos)
    then show ?thesis by (simp only: count_mset)
  qed

  \<comment> \<open>the transfers can all be executed on the copy of the hands\<close>
  define m0 where "m0 = initialCardsMap ps"
  have m0: "m0 (pid p) = Some (cards p)" if "p \<in> set ps" for p
    unfolding m0_def using dist' that by (rule initialCardsMap_at)
  have pre: "\<forall>t\<in>set ts. fromPlayerId t \<in> dom m0 \<and> toPlayerId t \<in> dom m0
               \<and> (\<exists>c\<in>set (handOf m0 (fromPlayerId t)). Some (cid c) = transferCardId t)"
  proof
    fix t assume "t \<in> set ts"
    then obtain x where x: "x \<in> set allSel" "t = g x" by (auto simp: ts)
    from tf[OF x(1)] tg[OF x(1)] obtain i where i: "i < n" "selPlayerId x = Some (pid (alive ! i))"
      and t: "g x = \<lparr>fromPlayerId = pid (left i), toPlayerId = pid (alive ! i),
                      transferCardId = selectedCardId x\<rparr>" by auto
    from i(1) have a: "alive ! i \<in> set ps" unfolding n_def by (simp add: aliveD)
    from leftn[OF i(1)] have l: "left i \<in> set ps" by (simp add: aliveD)
    from pick' x(1) i obtain c where c: "c \<in> set (cards (left i))" "selectedCardId x = Some (cid c)"
      unfolding left_def by blast
    show "fromPlayerId t \<in> dom m0 \<and> toPlayerId t \<in> dom m0
               \<and> (\<exists>c\<in>set (handOf m0 (fromPlayerId t)). Some (cid c) = transferCardId t)"
      unfolding x(2) t using m0[OF a] m0[OF l] c by (auto simp: handOf_def)
  qed
  have sub: "fromPlayerId ` set ts \<subseteq> set (map pid ps)" "toPlayerId ` set ts \<subseteq> set (map pid ps)"
  proof -
    have "set_mset (mset (map fromPlayerId ts)) = set_mset (mset (map pid alive))"
      by (simp only: mfroms)
    then have "set (map fromPlayerId ts) = set (map pid alive)" by (simp only: set_mset_mset)
    then show "fromPlayerId ` set ts \<subseteq> set (map pid ps)" by (auto simp: alive_def)
    have "set_mset (mset (map toPlayerId ts)) = set_mset (mset (map pid alive))"
      by (simp only: mtos)
    then have "set (map toPlayerId ts) = set (map pid alive)" by (simp only: set_mset_mset)
    then show "toPlayerId ` set ts \<subseteq> set (map pid ps)" by (auto simp: alive_def)
  qed
  define fin where "fin = fst (executeTransfers ts m0)"
  from executeTransfers_balance[OF dfrom pre dist' sub, of "[]"]
  have dom: "dom fin = dom m0"
    and len: "\<And>k. length (handOf fin k) = length (handOf m0 k)"
    and tot: "allCards (map pid ps) fin = allCards (map pid ps) m0"
    by (simp_all add: fin_def executeTransfers_def counts)
  have hand: "(case fin (pid p) of Some cs \<Rightarrow> cs | None \<Rightarrow> cards p) = handOf fin (pid p)"
    if "p \<in> set ps" for p
  proof -
    from m0[OF that] dom have "pid p \<in> dom fin" by auto
    then show ?thesis by (auto simp: handOf_def)
  qed
  have hand0: "handOf m0 (pid p) = cards p" if "p \<in> set ps" for p
    using m0[OF that] by (simp add: handOf_def)

  \<comment> \<open>the state returned\<close>
  define u where "u = s\<lparr>conspiracySelections := own\<rparr>"
  have run: "applyAction rnd playerId ''CONSPIRACY_SELECT'' d s = resolveConspiracy rnd u"
    using trig by (simp add: applyAction_conspiracySelect conspiracySelect_def Let_def own_def
        u_def ps_def)
  have pu: "players u = ps" and su: "conspiracySelections u = own" by (simp_all add: u_def ps_def)
  define newPlayers where "newPlayers = players (resolveConspiracy rnd u)"
  have np: "newPlayers =
     map (\<lambda>(k, p). p\<lparr>cards := shuffle (shuffleDraw rnd k)
                        (case fin (pid p) of Some cs \<Rightarrow> cs | None \<Rightarrow> cards p),
                     hasRevealedWitch := (hasRevealedWitch p
                        \<or> pid p \<in> set (snd (executeTransfers ts m0)))\<rparr>) (enumerate 0 ps)"
    unfolding newPlayers_def resolveConspiracy_players pu su
    by (simp add: fin_def ts_def allSel_def m0_def)
  have lens: "map (\<lambda>p. length (cards p)) newPlayers = map (\<lambda>p. length (cards p)) ps"
    unfolding np
    by (rule map_enumerate_cong) (simp add: length_shuffle hand len hand0)
  have "map (\<lambda>p. mset (cards p)) newPlayers = map (\<lambda>p. mset (handOf fin (pid p))) ps"
    unfolding np
    by (rule map_enumerate_cong) (simp add: mset_shuffle hand)
  then have "sum_list (map (\<lambda>p. mset (cards p)) newPlayers)
               = sum_list (map (\<lambda>p. mset (handOf fin (pid p))) ps)"
    by (simp only:)
  also have "\<dots> = allCards (map pid ps) fin"
    by (simp add: allCards_def comp_def)
  also have "\<dots> = allCards (map pid ps) m0" by (rule tot)
  also have "\<dots> = sum_list (map (\<lambda>p. mset (cards p)) ps)"
  proof -
    have e: "map (\<lambda>p. mset (handOf m0 (pid p))) ps = map (\<lambda>p. mset (cards p)) ps"
      by (rule map_cong) (simp_all add: hand0)
    have "allCards (map pid ps) m0 = sum_list (map (\<lambda>p. mset (handOf m0 (pid p))) ps)"
      by (simp add: allCards_def comp_def)
    then show ?thesis by (simp only: e)
  qed
  finally have msets: "mset (concat (map cards newPlayers)) = mset (concat (map cards ps))"
    by (simp add: mset_concat comp_def)
  have "players (processPlayerAction rnd s playerId ''CONSPIRACY_SELECT'' d) = newPlayers"
    by (simp add: players_finish run newPlayers_def)
  moreover have "conspiracySelections (processPlayerAction rnd s playerId ''CONSPIRACY_SELECT'' d)
                   = []"
    by (simp add: selections_finish run resolveConspiracy_players)
  ultimately show ?thesis
    using lens msets mset_map_eq[OF msets, of cid] by (simp add: ps_def)
qed


lemma ghostSelection_alive:
  assumes dist: "distinct (map pid ps)"
    and i: "i < length (filter (\<lambda>p. \<not> isDead p) ps)"
    and hid: "\<exists>c\<in>set (cards (filter (\<lambda>p. \<not> isDead p) ps
                  ! ((i + length (filter (\<lambda>p. \<not> isDead p) ps) - 1)
                      mod length (filter (\<lambda>p. \<not> isDead p) ps)))). \<not> isRevealed c"
  shows "\<exists>c\<in>set (cards (filter (\<lambda>p. \<not> isDead p) ps
                  ! ((i + length (filter (\<lambda>p. \<not> isDead p) ps) - 1)
                      mod length (filter (\<lambda>p. \<not> isDead p) ps)))).
           ghostSelection ps (r, filter (\<lambda>p. \<not> isDead p) ps ! i)
             = [\<lparr>selPlayerId = Some (pid (filter (\<lambda>p. \<not> isDead p) ps ! i)),
                 selectedCardId = Some (cid c)\<rparr>]"
proof -
  define alive where "alive = filter (\<lambda>p. \<not> isDead p) ps"
  define ln where "ln = alive ! ((i + length alive - 1) mod length alive)"
  define hidden where "hidden = filter (\<lambda>c. \<not> isRevealed c) (cards ln)"
  from hid have "hidden \<noteq> []"
    by (auto simp: hidden_def ln_def alive_def filter_empty_conv)
  then have len: "0 < length hidden" by simp
  then have "randomIndex r (length hidden) < length hidden" by (rule randomIndex_less)
  then have "hidden ! randomIndex r (length hidden) \<in> set hidden" by (rule nth_mem)
  then have mem: "hidden ! randomIndex r (length hidden) \<in> set (cards ln)"
    by (simp add: hidden_def)
  have l: "leftNeighborOf ps (Some (pid (alive ! i))) = Some ln"
    unfolding alive_def ln_def using leftNeighborOf_alive[OF dist i] by (simp add: alive_def)
  have "ghostSelection ps (r, alive ! i)
          = [\<lparr>selPlayerId = Some (pid (alive ! i)),
              selectedCardId = Some (cid (hidden ! randomIndex r (length hidden)))\<rparr>]"
    using len by (simp add: ghostSelection_def l hidden_def Let_def)
  with mem show ?thesis unfolding ln_def alive_def by blast
qed

lemma concat_singletons:
  "(\<And>z. z \<in> set zs \<Longrightarrow> \<exists>x. f z = [x] \<and> sp x = g z) \<Longrightarrow>
   map sp (concat (map f zs)) = map g zs"
proof (induction zs)
  case Nil
  then show ?case by simp
next
  case (Cons z zs)
  from Cons.prems[of z] obtain x where "f z = [x]" "sp x = g z" by auto
  moreover have "map sp (concat (map f zs)) = map g zs"
    by (rule Cons.IH) (simp add: Cons.prems)
  ultimately show ?case by simp
qed

lemma ghostSelections_alive:
  assumes dist: "distinct (map pid ps)"
    and hid: "\<forall>i<length (filter (\<lambda>p. \<not> isDead p) ps).
                isGhost (filter (\<lambda>p. \<not> isDead p) ps ! i) \<longrightarrow>
                (\<exists>c\<in>set (cards (filter (\<lambda>p. \<not> isDead p) ps
                     ! ((i + length (filter (\<lambda>p. \<not> isDead p) ps) - 1)
                         mod length (filter (\<lambda>p. \<not> isDead p) ps)))). \<not> isRevealed c)"
  shows "map selPlayerId (ghostSelections draw ps)
           = map (\<lambda>p. Some (pid p)) (filter isGhost (filter (\<lambda>p. \<not> isDead p) ps))"
    and "\<forall>x\<in>set (ghostSelections draw ps).
           \<forall>i<length (filter (\<lambda>p. \<not> isDead p) ps).
             selPlayerId x = Some (pid (filter (\<lambda>p. \<not> isDead p) ps ! i)) \<longrightarrow>
             (\<exists>c\<in>set (cards (filter (\<lambda>p. \<not> isDead p) ps
                   ! ((i + length (filter (\<lambda>p. \<not> isDead p) ps) - 1)
                       mod length (filter (\<lambda>p. \<not> isDead p) ps)))).
                selectedCardId x = Some (cid c))"
proof -
  define alive where "alive = filter (\<lambda>p. \<not> isDead p) ps"
  define n where "n = length alive"
  define left where "left = (\<lambda>i. alive ! ((i + n - 1) mod n))"
  define ghosts where "ghosts = filter isGhost alive"
  define zs where "zs = zip (map draw [0..<length ghosts]) ghosts"
  note hid' = hid[folded alive_def, folded n_def, folded left_def]
  have distA: "distinct (map pid alive)"
    unfolding alive_def using dist by (rule distinct_map_filter)
  have gs: "ghostSelections draw ps = concat (map (ghostSelection ps) zs)"
    by (simp add: ghostSelections_def zs_def ghosts_def alive_def Let_def)
  have one: "\<exists>j<n. snd z = alive ! j
               \<and> (\<exists>c\<in>set (cards (left j)).
                    ghostSelection ps z
                      = [\<lparr>selPlayerId = Some (pid (alive ! j)), selectedCardId = Some (cid c)\<rparr>])"
    if z: "z \<in> set zs" for z
  proof -
    obtain r g where rg: "z = (r, g)" by (cases z)
    with z have "g \<in> set ghosts" unfolding zs_def by (auto dest: set_zip_rightD)
    then have ga: "g \<in> set alive" and gg: "isGhost g" by (simp_all add: ghosts_def)
    from ga obtain j where j: "j < length alive" "alive ! j = g"
      by (auto simp: in_set_conv_nth)
    from j gg hid' have h: "\<exists>c\<in>set (cards (left j)). \<not> isRevealed c"
      by (simp add: n_def left_def)
    from j(1) have j': "j < length (filter (\<lambda>p. \<not> isDead p) ps)" by (simp add: alive_def)
    have "\<exists>c\<in>set (cards (left j)).
            ghostSelection ps (r, alive ! j)
              = [\<lparr>selPlayerId = Some (pid (alive ! j)), selectedCardId = Some (cid c)\<rparr>]"
      using ghostSelection_alive[OF dist j', of r] h
      by (simp add: left_def n_def alive_def)
    with j rg show ?thesis by (auto simp: n_def)
  qed
  have "map selPlayerId (concat (map (ghostSelection ps) zs))
          = map (\<lambda>z. Some (pid (snd z))) zs"
  proof (rule concat_singletons)
    fix z assume "z \<in> set zs"
    from one[OF this] show "\<exists>x. ghostSelection ps z = [x] \<and> selPlayerId x = Some (pid (snd z))"
      by auto
  qed
  also have "\<dots> = map (\<lambda>p. Some (pid p)) (map snd zs)" by simp
  also have "map snd zs = ghosts" by (simp add: zs_def)
  finally show "map selPlayerId (ghostSelections draw ps)
           = map (\<lambda>p. Some (pid p)) (filter isGhost (filter (\<lambda>p. \<not> isDead p) ps))"
    by (simp add: gs ghosts_def alive_def)
  have "\<forall>x\<in>set (ghostSelections draw ps). \<forall>i<n.
          selPlayerId x = Some (pid (alive ! i)) \<longrightarrow>
          (\<exists>c\<in>set (cards (left i)). selectedCardId x = Some (cid c))"
  proof (intro ballI allI impI)
    fix x i
    assume x: "x \<in> set (ghostSelections draw ps)" and i: "i < n"
      and e: "selPlayerId x = Some (pid (alive ! i))"
    from x gs obtain z where z: "z \<in> set zs" and xz: "x \<in> set (ghostSelection ps z)" by auto
    from one[OF z] xz obtain j c where j: "j < n" and c: "c \<in> set (cards (left j))"
      and xe: "x = \<lparr>selPlayerId = Some (pid (alive ! j)), selectedCardId = Some (cid c)\<rparr>"
      by auto
    from e xe have "map pid alive ! i = map pid alive ! j" using i j by (simp add: n_def)
    with nth_eq_iff_index_eq[OF distA, of i j] i j have "i = j" by (simp add: n_def)
    with c xe show "\<exists>c\<in>set (cards (left i)). selectedCardId x = Some (cid c)" by auto
  qed
  then show "\<forall>x\<in>set (ghostSelections draw ps).
           \<forall>i<length (filter (\<lambda>p. \<not> isDead p) ps).
             selPlayerId x = Some (pid (filter (\<lambda>p. \<not> isDead p) ps ! i)) \<longrightarrow>
             (\<exists>c\<in>set (cards (filter (\<lambda>p. \<not> isDead p) ps
                   ! ((i + length (filter (\<lambda>p. \<not> isDead p) ps) - 1)
                       mod length (filter (\<lambda>p. \<not> isDead p) ps)))).
                selectedCardId x = Some (cid c))"
    by (simp add: left_def n_def alive_def)
qed

lemma ball_appendI:
  "\<forall>x\<in>set xs. P x \<Longrightarrow> \<forall>x\<in>set ys. P x \<Longrightarrow> \<forall>x\<in>set (xs @ ys). P x"
  by auto

lemma mset_map_partition:
  "mset (map f (filter (\<lambda>x. \<not> Q x) xs)) + mset (map f (filter Q xs)) = mset (map f xs)"
  by (induction xs) simp_all

text \<open>
  The same from the selections that the players enter. Let the player ids be distinct, let
  the \<open>CONSPIRACY_SELECT\<close> of \<open>playerId\<close> complete a round in which exactly the living
  humans have a selection, one each, naming a card in the hand of the left neighbour, and
  let the left neighbour of every living ghost hold a hidden card. The handler then adds
  one selection for every living ghost, of a hidden card of its left neighbour, and the
  hands keep their sizes and their cards.
\<close>

lemma conspiracy_round_keeps_hands:
  assumes dist: "distinct (map pid (players s))"
    and entered: "mset (map selPlayerId
                    (filter (\<lambda>x. selPlayerId x \<noteq> Some playerId) (conspiracySelections s)
                     @ [\<lparr>selPlayerId = Some playerId, selectedCardId = cardId d\<rparr>]))
                = mset (map (\<lambda>p. Some (pid p))
                    (filter (\<lambda>p. \<not> isDead p \<and> \<not> isGhost p) (players s)))"
    and pick: "\<forall>x\<in>set (filter (\<lambda>x. selPlayerId x \<noteq> Some playerId) (conspiracySelections s)
                     @ [\<lparr>selPlayerId = Some playerId, selectedCardId = cardId d\<rparr>]).
                 \<forall>i<length (filter (\<lambda>p. \<not> isDead p) (players s)).
                   selPlayerId x = Some (pid (filter (\<lambda>p. \<not> isDead p) (players s) ! i)) \<longrightarrow>
                   (\<exists>c\<in>set (cards (filter (\<lambda>p. \<not> isDead p) (players s)
                                 ! ((i + length (filter (\<lambda>p. \<not> isDead p) (players s)) - 1)
                                     mod length (filter (\<lambda>p. \<not> isDead p) (players s))))).
                      selectedCardId x = Some (cid c))"
    and hid: "\<forall>i<length (filter (\<lambda>p. \<not> isDead p) (players s)).
                isGhost (filter (\<lambda>p. \<not> isDead p) (players s) ! i) \<longrightarrow>
                (\<exists>c\<in>set (cards (filter (\<lambda>p. \<not> isDead p) (players s)
                     ! ((i + length (filter (\<lambda>p. \<not> isDead p) (players s)) - 1)
                         mod length (filter (\<lambda>p. \<not> isDead p) (players s))))).
                   \<not> isRevealed c)"
  shows "map (\<lambda>p. length (cards p))
           (players (processPlayerAction rnd s playerId ''CONSPIRACY_SELECT'' d))
           = map (\<lambda>p. length (cards p)) (players s)
         \<and> mset (concat (map cards
              (players (processPlayerAction rnd s playerId ''CONSPIRACY_SELECT'' d))))
           = mset (concat (map cards (players s)))
         \<and> mset (map cid (concat (map cards
              (players (processPlayerAction rnd s playerId ''CONSPIRACY_SELECT'' d)))))
           = mset (map cid (concat (map cards (players s))))
         \<and> conspiracySelections (processPlayerAction rnd s playerId ''CONSPIRACY_SELECT'' d) = []"
proof (rule transfers_keep_hands[OF dist])
  let ?alive = "filter (\<lambda>p. \<not> isDead p) (players s)"
  let ?own = "filter (\<lambda>x. selPlayerId x \<noteq> Some playerId) (conspiracySelections s)
                @ [\<lparr>selPlayerId = Some playerId, selectedCardId = cardId d\<rparr>]"
  have split: "selectionsAtResolution rnd s playerId d
                 = ?own @ ghostSelections (ghostDraw rnd) (players s)"
    by (simp add: selectionsAtResolution_def)
  have humans: "filter (\<lambda>p. \<not> isDead p \<and> \<not> isGhost p) (players s)
                  = filter (\<lambda>p. \<not> isGhost p) ?alive"
    by (simp add: conj_commute)
  have "mset (map selPlayerId (selectionsAtResolution rnd s playerId d))
          = mset (map selPlayerId ?own)
            + mset (map selPlayerId (ghostSelections (ghostDraw rnd) (players s)))"
    unfolding split by simp
  also have "\<dots> = mset (map (\<lambda>p. Some (pid p)) (filter (\<lambda>p. \<not> isGhost p) ?alive))
            + mset (map (\<lambda>p. Some (pid p)) (filter isGhost ?alive))"
    by (simp only: entered humans ghostSelections_alive(1)[OF dist hid])
  also have "\<dots> = mset (map (\<lambda>p. Some (pid p)) ?alive)"
    by (rule mset_map_partition)
  finally show "mset (map selPlayerId (selectionsAtResolution rnd s playerId d))
                  = mset (map (\<lambda>p. Some (pid p)) ?alive)" .
  show "\<forall>x\<in>set (selectionsAtResolution rnd s playerId d).
          \<forall>i<length ?alive.
            selPlayerId x = Some (pid (?alive ! i)) \<longrightarrow>
            (\<exists>c\<in>set (cards (?alive ! ((i + length ?alive - 1) mod length ?alive))).
               selectedCardId x = Some (cid c))"
    unfolding split
    by (rule ball_appendI[OF pick ghostSelections_alive(2)[OF dist hid, of "ghostDraw rnd"]])
qed

lemma shuffle_keep1: "shuffle (\<lambda>i. i) [a] = [a]"
  by (simp add: shuffle_def randomIndex_def)

lemma shuffle_keep3: "shuffle (\<lambda>i. i) [a, b, c] = [a, b, c]"
  by (simp add: shuffle_def randomIndex_def)

lemma ghostRingEntered_state:
  "ghostRingEntered = ghostRing
     \<lparr>conspiracySelections :=
        [\<lparr>selPlayerId = Some ''g1'', selectedCardId = Some ''b0''\<rparr>,
         \<lparr>selPlayerId = Some ''g2'', selectedCardId = Some ''b2''\<rparr>,
         \<lparr>selPlayerId = Some ''h2'', selectedCardId = Some ''a1''\<rparr>]\<rparr>"
  by (simp add: ghostRingEntered_def processPlayerAction_def applyAction_def conspiracySelect_def
      checkWinCondition_def ghostRing_def example_defs Let_def)

text \<open>
  On the ring of two humans and two ghosts the round in which only the humans select
  rotates one card per seat.
\<close>

lemma ghostRing_autofill:
  "map (\<lambda>p. map cid (cards p))
     (players (processPlayerAction exRand
        (processPlayerAction exRand ghostRing ''h2'' ''CONSPIRACY_SELECT''
           (exData\<lparr>cardId := Some ''a1''\<rparr>))
        ''h1'' ''CONSPIRACY_SELECT'' (exData\<lparr>cardId := Some ''a3''\<rparr>)))
   = [[''b0'', ''a3''], [''b1'', ''a0''], [''b2'', ''a1''], [''b3'', ''a2'']]"
  by (simp add: processPlayerAction_def applyAction_def conspiracySelect_def
      resolveConspiracy_def ghostSelections_def ghostSelection_def cardTransfers_def
      transferFor_def randomIndex_def
      leftNeighborOf_def leftIndex_def nthOpt_def executeTransfers_def applyTransfer_def
      initialCardsMap_def pushLog_def checkWinCondition_def winMessage_def shuffle_keep2
      ghostRing_def example_defs Let_def enumerate_eq_zip upt_rec)

text \<open>
  C7 fails when a selection was entered for a living ghost. On the same ring, with two
  cards in every hand, the host enters a selection for each ghost
  (\<^verbatim>\<open>CONSPIRACY_SELECT_FOR_OTHER\<close>) and both humans select, every one of the four a
  different hidden card of the immediate left neighbour. When the last human selects, the
  handler pushes a further selection for each living ghost without looking for one that
  is already there, so each ghost draws two cards from its left neighbour and passes on
  one: the hands end with 1, 3, 1 and 3 cards. No card is lost or duplicated.
\<close>

theorem conspiracy_ghost_double_transfer:
  "map (\<lambda>p. map cid (cards p)) (players ghostRingEntered)
     = [[''a0'', ''b0''], [''a1'', ''b1''], [''a2'', ''b2''], [''a3'', ''b3'']]
   \<and> conspiracySelections ghostRingEntered
     = [\<lparr>selPlayerId = Some ''g1'', selectedCardId = Some ''b0''\<rparr>,
        \<lparr>selPlayerId = Some ''g2'', selectedCardId = Some ''b2''\<rparr>,
        \<lparr>selPlayerId = Some ''h2'', selectedCardId = Some ''a1''\<rparr>]
   \<and> map (\<lambda>p. map cid (cards p))
       (players (processPlayerAction exRand ghostRingEntered ''h1'' ''CONSPIRACY_SELECT''
          (exData\<lparr>cardId := Some ''a3''\<rparr>)))
     = [[''a3''], [''b1'', ''b0'', ''a0''], [''a1''], [''b3'', ''b2'', ''a2'']]
   \<and> map (\<lambda>p. length (cards p))
       (players (processPlayerAction exRand ghostRingEntered ''h1'' ''CONSPIRACY_SELECT''
          (exData\<lparr>cardId := Some ''a3''\<rparr>)))
     = [1, 3, 1, 3]
   \<and> phase (processPlayerAction exRand ghostRingEntered ''h1'' ''CONSPIRACY_SELECT''
          (exData\<lparr>cardId := Some ''a3''\<rparr>)) = DAY"
  unfolding ghostRingEntered_state
  by (simp add: processPlayerAction_def applyAction_def conspiracySelect_def
      resolveConspiracy_def ghostSelections_def ghostSelection_def cardTransfers_def
      transferFor_def randomIndex_def
      leftNeighborOf_def leftIndex_def nthOpt_def executeTransfers_def applyTransfer_def
      initialCardsMap_def pushLog_def checkWinCondition_def winMessage_def shuffle_keep2
      shuffle_keep1 shuffle_keep3
      ghostRing_def example_defs Let_def enumerate_eq_zip upt_rec)

end
